theory Spec2Isabelle
  imports Complex_Main "HOL-Library.Word"
begin

section \<open>The sample source of the timesync tool (samplesource.c)\<close>

text \<open>
  The theory embeds \<^verbatim>\<open>SampleSourceOpen\<close>, \<^verbatim>\<open>SampleSourceRead\<close> and
  \<^verbatim>\<open>SampleSourceClose\<close> of \<^verbatim>\<open>src/raw_data_conversion/timesync/samplesource.c\<close>.
  The file is compiled without \<^verbatim>\<open>USE_MMAP\<close> (the define is commented out), so the
  allocate-and-read branch is the one embedded.

  The headers \<^verbatim>\<open>samplesource.h\<close>, \<^verbatim>\<open>wav.h\<close>, \<^verbatim>\<open>timestamp.h\<close> and
  \<^verbatim>\<open>exits.h\<close> are not part of the sources at hand. What they
  declare is taken as a parameter: the constant \<^verbatim>\<open>SAMPLE_SOURCE_CHANNELS_MAX\<close>, the
  container reader \<^verbatim>\<open>WavRead\<close> and the time parser \<^verbatim>\<open>TimeParse\<close>; likewise the
  C library's \<^verbatim>\<open>atof\<close> and the rounding of a \<^verbatim>\<open>double\<close> to a \<^verbatim>\<open>float\<close>.
  Values of type \<^verbatim>\<open>double\<close> and \<^verbatim>\<open>float\<close> are modelled by real numbers (no NaN, no
  infinity); the integer fields of the two structs by \<^typ>\<open>int\<close>, which covers
  every signed or unsigned C type they may have.
\<close>

subsection \<open>Data\<close>

text \<open>The exit codes of \<^verbatim>\<open>exits.h\<close>, by name.\<close>

datatype exit_code = EXIT_OK | EXIT_NOINPUT | EXIT_DATAERR | EXIT_SOFTWARE | EXIT_IOERR

text \<open>
  What the C standard leaves undefined and the code can reach: a store or a load
  outside an array (with the index), \<^verbatim>\<open>strtok(NULL, ...)\<close> with no string being
  tokenised (after a failed \<^verbatim>\<open>strdup\<close>), and \<^verbatim>\<open>free\<close> of a pointer that is not
  a live allocation.
\<close>

datatype undefined_behaviour =
  OutOfBoundsWrite nat | OutOfBoundsRead nat | NullTokenise | InvalidFree

text \<open>
  \<^verbatim>\<open>WavInfo\<close>: the fields \<^verbatim>\<open>SampleSourceOpen\<close> reads after \<^verbatim>\<open>WavRead\<close>. The four
  text pointers of the struct alias the text buffers of the sample source, so the
  texts \<^verbatim>\<open>WavRead\<close> stores through them are held here as the strings those buffers
  contain afterwards.
\<close>

record WavInfo =
  bytesPerChannel :: int
  chans :: int
  freq :: int
  offset :: int
  numSamples :: int
  infoArtist :: string
  infoName :: string
  infoComment :: string
  infoDate :: string

text \<open>
  \<^verbatim>\<open>sample_source_t\<close>. \<open>buffer\<close> is a pointer: \<open>None\<close> is \<^verbatim>\<open>NULL\<close>, \<open>Some a\<close> the
  address of an allocation.
\<close>

record sample_source =
  scale :: "real list"
  infoArtist :: string
  infoName :: string
  infoComment :: string
  infoDate :: string
  dataStartOffset :: int
  numChannels :: int
  numSamples :: int
  sampleRate :: int
  startTime :: real
  buffer :: "nat option"
  bufferLength :: int

text \<open>
  The lines written to \<^verbatim>\<open>stderr\<close>, one constructor for each \<^verbatim>\<open>fprintf\<close> of the file,
  with the values it prints (a length is printed after a cast to \<^verbatim>\<open>int\<close>; the
  constructor holds the length itself).
\<close>

datatype diag =
  LoadingHeader string
  | ErrorCannotOpen
  | ErrorReadingFormat
  | ErrorBytesPerChannel int
  | ErrorChannels int nat
  | ErrorFrequency int
  | TimeFound real
  | ScaleFound nat real nat real
  | WarningTime
  | WarningScale nat
  | Allocating int
  | ErrorAllocating int
  | ErrorReadingBytes int

text \<open>
  The part of the process state the three functions change: the heap (live
  allocations and the bytes stored in them), the set of open \<^verbatim>\<open>FILE\<close> handles and
  the lines written to \<^verbatim>\<open>stderr\<close>.
\<close>

record sys =
  heap :: "nat \<rightharpoonup> string"
  files :: "nat set"
  stderr :: "diag list"

text \<open>
  What the build and the other translation units fix: \<^verbatim>\<open>SAMPLE_SOURCE_CHANNELS_MAX\<close>,
  \<^verbatim>\<open>WavRead\<close> (a function of the file's bytes: whether it succeeds, and the
  \<^verbatim>\<open>WavInfo\<close> it leaves), \<^verbatim>\<open>TimeParse\<close>, \<^verbatim>\<open>atof\<close> and the conversion
  \<^verbatim>\<open>(float)\<close> of a \<^verbatim>\<open>double\<close>.
\<close>

record platform =
  CHANNELS_MAX :: nat
  WavRead :: "string \<Rightarrow> bool \<times> WavInfo"
  TimeParse :: "string \<Rightarrow> real"
  atof :: "string \<Rightarrow> real"
  to_float :: "real \<Rightarrow> real"

text \<open>
  What the C library answers during one call of \<^verbatim>\<open>SampleSourceOpen\<close>: \<^verbatim>\<open>fopen\<close>
  gives a handle and the file's bytes, or \<^verbatim>\<open>NULL\<close>; \<^verbatim>\<open>strdup\<close> and \<^verbatim>\<open>malloc\<close> give
  the address of the new allocation, or \<^verbatim>\<open>NULL\<close>; \<^verbatim>\<open>fread\<close> gives the number of
  bytes it read of those requested.
\<close>

record libc =
  fopen :: "string \<Rightarrow> (nat \<times> string) option"
  strdup :: "string \<Rightarrow> nat option"
  malloc :: "nat \<Rightarrow> nat option"
  fread :: "nat \<Rightarrow> nat"

subsection \<open>Library calls\<close>

text \<open>\<^verbatim>\<open>fprintf(stderr, ...)\<close>, \<^verbatim>\<open>fclose\<close>, and \<^verbatim>\<open>free\<close>, which is defined for a live
  allocation only.\<close>

definition fprintf_stderr :: "sys \<Rightarrow> diag \<Rightarrow> sys" where
  "fprintf_stderr m d = m\<lparr>stderr := stderr m @ [d]\<rparr>"

definition fclose :: "sys \<Rightarrow> nat \<Rightarrow> sys" where
  "fclose m fp = m\<lparr>files := files m - {fp}\<rparr>"

definition free_alloc :: "sys \<Rightarrow> nat \<Rightarrow> undefined_behaviour + sys" where
  "free_alloc m p =
     (if p \<in> dom (heap m) then Inr (m\<lparr>heap := (heap m)(p := None)\<rparr>) else Inl InvalidFree)"

text \<open>
  The bytes of a C string held in a buffer: those before the first NUL. The character
  \<^verbatim>\<open>s[i]\<close> of a C string \<open>s\<close>: the terminating NUL at \<open>i = length s\<close>.
\<close>

definition c_str :: "string \<Rightarrow> string" where
  "c_str s = takeWhile (\<lambda>c. c \<noteq> CHR 0x00) s"

definition c_at :: "string \<Rightarrow> nat \<Rightarrow> char" where
  "c_at s i = (if i < length s then s ! i else CHR 0x00)"

text \<open>
  The tokens that the loop \<^verbatim>\<open>for (line = strtok(s, d); line != NULL; line = strtok(NULL, d))\<close>
  visits, for a one-character delimiter string: the maximal non-empty runs of characters
  other than the delimiter, in order. \<open>cur\<close> is the token being read.
\<close>

fun strtok_all :: "char \<Rightarrow> string \<Rightarrow> string \<Rightarrow> string list" where
  "strtok_all d cur [] = (if cur = [] then [] else [cur])"
| "strtok_all d cur (c # cs) =
     (if c = d then (if cur = [] then strtok_all d [] cs else cur # strtok_all d [] cs)
      else strtok_all d (cur @ [c]) cs)"

subsection \<open>SampleSourceOpen: the headers of the comment text\<close>

definition MAX_FIELDS :: nat where
  "MAX_FIELDS = 32"

text \<open>
  The lines kept in \<^verbatim>\<open>commentLines\<close>: the first \<^verbatim>\<open>MAX_FIELDS\<close> tokens of the copy of
  the comment text.
\<close>

definition commentLines :: "string \<Rightarrow> string list" where
  "commentLines comment = take MAX_FIELDS (strtok_all CHR 0x0A [] comment)"

text \<open>
  The variables of the header loop: the locals \<^verbatim>\<open>parsedTime\<close>, \<^verbatim>\<open>parsedScale\<close> and
  \<^verbatim>\<open>startTime\<close>, the array \<^verbatim>\<open>sampleSource->scale\<close> the loop stores into, and the lines
  it writes to \<^verbatim>\<open>stderr\<close>.
\<close>

record headers =
  parsedTime :: bool
  parsedScale :: "bool list"
  startTime_local :: real
  scale_array :: "real list"
  printed :: "diag list"

text \<open>
  The tests of the \<^verbatim>\<open>if\<close> and of the \<^verbatim>\<open>else if\<close>: \<^verbatim>\<open>strncmp(line, "Time:", 5) == 0\<close>,
  and \<^verbatim>\<open>strncmp(line, "Scale-", 6) == 0\<close> with a digit 1 to 9 at index 6 and a colon
  at index 7. The channel of such a line is \<^verbatim>\<open>line[6] - '1'\<close>.
\<close>

definition is_time_line :: "string \<Rightarrow> bool" where
  "is_time_line line \<longleftrightarrow> take 5 line = ''Time:''"

definition is_scale_line :: "string \<Rightarrow> bool" where
  "is_scale_line line \<longleftrightarrow>
     take 6 line = ''Scale-''
     \<and> (of_char (CHR ''1'') :: nat) \<le> of_char (c_at line 6)
     \<and> (of_char (c_at line 6) :: nat) \<le> of_char (CHR ''9'')
     \<and> c_at line 7 = CHR '':''"

definition scale_chan :: "string \<Rightarrow> nat" where
  "scale_chan line = of_char (c_at line 6) - of_char (CHR ''1'')"

text \<open>One pass of the loop body, for the line \<^verbatim>\<open>commentLines[i]\<close>.\<close>

definition parse_line :: "platform \<Rightarrow> headers \<Rightarrow> string \<Rightarrow> undefined_behaviour + headers" where
  "parse_line P h line =
     (if is_time_line line then
        let t = TimeParse P (drop 5 line);
            h = h\<lparr>startTime_local := t, printed := printed h @ [TimeFound t]\<rparr>
        in Inr (if 0 < t then h\<lparr>parsedTime := True\<rparr> else h)
      else if is_scale_line line then
        let chan = scale_chan line;
            val = atof P (drop 8 line)
        in if CHANNELS_MAX P \<le> chan then Inl (OutOfBoundsWrite chan)
           else
             let sc = to_float P (val / 32768);
                 h = h\<lparr>scale_array := (scale_array h)[chan := sc],
                       printed := printed h @ [ScaleFound (chan + 1) val chan sc]\<rparr>
             in Inr (if 0 < sc then h\<lparr>parsedScale := (parsedScale h)[chan := True]\<rparr> else h)
      else Inr h)"

text \<open>A loop whose body may be undefined.\<close>

fun for_each ::
  "('s \<Rightarrow> 'x \<Rightarrow> undefined_behaviour + 's) \<Rightarrow> 's \<Rightarrow> 'x list \<Rightarrow> undefined_behaviour + 's" where
  "for_each body s [] = Inr s"
| "for_each body s (x # xs) =
     (case body s x of Inl u \<Rightarrow> Inl u | Inr s' \<Rightarrow> for_each body s' xs)"

text \<open>The checks after the loop: one warning for the time, and one pass of the second
  loop for each of \<open>i = 0, 1, 2\<close>, which reads \<^verbatim>\<open>parsedScale[i]\<close>.\<close>

definition check_time :: "headers \<Rightarrow> headers" where
  "check_time h = (if \<not> parsedTime h then h\<lparr>printed := printed h @ [WarningTime]\<rparr> else h)"

definition check_scale :: "platform \<Rightarrow> headers \<Rightarrow> nat \<Rightarrow> undefined_behaviour + headers" where
  "check_scale P h i =
     (if CHANNELS_MAX P \<le> i then Inl (OutOfBoundsRead i)
      else Inr (if \<not> parsedScale h ! i then h\<lparr>printed := printed h @ [WarningScale (i + 1)]\<rparr>
                else h))"

text \<open>
  Lines 140 to 170 of the file, from the tokenised copy of the comment text to the
  last warning: \<open>sc\<close> is \<^verbatim>\<open>sampleSource->scale\<close> on entry.
\<close>

definition parse_headers ::
  "platform \<Rightarrow> real list \<Rightarrow> string \<Rightarrow> undefined_behaviour + headers" where
  "parse_headers P sc comment =
     (case for_each (parse_line P)
             \<lparr>parsedTime = False, parsedScale = replicate (CHANNELS_MAX P) False,
              startTime_local = 0, scale_array = sc, printed = []\<rparr>
             (commentLines comment) of
        Inl u \<Rightarrow> Inl u
      | Inr h \<Rightarrow> for_each (check_scale P) (check_time h) [0, 1, 2])"

text \<open>
  For the statements below: the value a \<^verbatim>\<open>Scale-\<close> line stores; whether some line
  is a \<^verbatim>\<open>Time:\<close> line with a positive time, or a \<^verbatim>\<open>Scale-\<close> line of channel \<open>i\<close>
  with a positive value; the \<^verbatim>\<open>Time:\<close> lines and the \<^verbatim>\<open>Scale-\<close> lines of channel
  \<open>i\<close> among the lines; and the lines of \<^verbatim>\<open>stderr\<close> that are warnings.
\<close>

definition scale_value :: "platform \<Rightarrow> string \<Rightarrow> real" where
  "scale_value P line = to_float P (atof P (drop 8 line) / 32768)"

definition valid_time :: "platform \<Rightarrow> string list \<Rightarrow> bool" where
  "valid_time P ls \<longleftrightarrow> (\<exists>l \<in> set ls. is_time_line l \<and> 0 < TimeParse P (drop 5 l))"

definition valid_scale :: "platform \<Rightarrow> nat \<Rightarrow> string list \<Rightarrow> bool" where
  "valid_scale P i ls \<longleftrightarrow>
     (\<exists>l \<in> set ls. is_scale_line l \<and> scale_chan l = i \<and> 0 < scale_value P l)"

text \<open>
  The text made of the given lines, each ended by a newline: the form in which the
  statements below take a comment text whose lines are known.
\<close>

definition text_of_lines :: "string list \<Rightarrow> string" where
  "text_of_lines ls = concat (map (\<lambda>l. l @ [CHR 0x0A]) ls)"

definition time_lines :: "string list \<Rightarrow> string list" where
  "time_lines ls = filter is_time_line ls"

definition scale_lines :: "nat \<Rightarrow> string list \<Rightarrow> string list" where
  "scale_lines i ls = filter (\<lambda>l. is_scale_line l \<and> scale_chan l = i) ls"

fun is_warning :: "diag \<Rightarrow> bool" where
  "is_warning WarningTime = True"
| "is_warning (WarningScale n) = True"
| "is_warning d = False"

subsection \<open>SampleSourceOpen\<close>

text \<open>
  The result of a call that returns: the exit code, the process state and the
  caller's \<^verbatim>\<open>sample_source_t\<close> as the call leaves them.
\<close>

record open_result =
  exit :: exit_code
  state :: sys
  source :: sample_source

text \<open>
  Lines 181 to 206: the whole file is read into a new allocation. \<open>len\<close> is
  \<^verbatim>\<open>length\<close>, what \<^verbatim>\<open>ftell\<close> gives at the end of the file: the number of its bytes.
  The allocation holds the bytes \<^verbatim>\<open>fread\<close> has stored in it. \<open>infoComment_copy\<close> is the
  pointer \<^verbatim>\<open>infoComment\<close> that \<^verbatim>\<open>strdup\<close> returned.
\<close>

definition read_data ::
  "libc \<Rightarrow> sys \<Rightarrow> sample_source \<Rightarrow> nat \<Rightarrow> string \<Rightarrow> nat
     \<Rightarrow> undefined_behaviour + open_result" where
  "read_data L m sampleSource fp bytes infoComment_copy =
     (let len = length bytes;
          m = fprintf_stderr m (Allocating (int len))
      in case malloc L len of
           None \<Rightarrow>
             Inr \<lparr>exit = EXIT_SOFTWARE,
                  state = fclose (fprintf_stderr m (ErrorAllocating (int len))) fp,
                  source = sampleSource\<rparr>
         | Some buf \<Rightarrow>
             let m = m\<lparr>heap := (heap m)(buf \<mapsto> take (fread L len) bytes)\<rparr>
             in if fread L len \<noteq> len then
                  (case free_alloc (fprintf_stderr m (ErrorReadingBytes (int len))) buf of
                     Inl u \<Rightarrow> Inl u
                   | Inr m \<Rightarrow>
                       Inr \<lparr>exit = EXIT_IOERR, state = fclose m fp, source = sampleSource\<rparr>)
                else
                  (case free_alloc (fclose m fp) infoComment_copy of
                     Inl u \<Rightarrow> Inl u
                   | Inr m \<Rightarrow>
                       Inr \<lparr>exit = EXIT_OK, state = m,
                            source = sampleSource\<lparr>buffer := Some buf,
                                       bufferLength := int len\<rparr>\<rparr>))"

text \<open>
  Lines 133 to 206: the metadata, the header fields, the data. \<^verbatim>\<open>strdup\<close> copies the
  comment text up to its NUL; when it returns \<^verbatim>\<open>NULL\<close>, \<^verbatim>\<open>strtok\<close> is called with two
  null pointers.
\<close>

definition load_source ::
  "platform \<Rightarrow> libc \<Rightarrow> sys \<Rightarrow> sample_source \<Rightarrow> WavInfo \<Rightarrow> nat \<Rightarrow> string
     \<Rightarrow> undefined_behaviour + open_result" where
  "load_source P L m sampleSource wavInfo fp bytes =
     (let comment = c_str (WavInfo.infoComment wavInfo)
      in case strdup L comment of
           None \<Rightarrow> Inl NullTokenise
         | Some infoComment_copy \<Rightarrow>
             let m = m\<lparr>heap := (heap m)(infoComment_copy \<mapsto> comment)\<rparr>
             in case parse_headers P (scale sampleSource) comment of
                  Inl u \<Rightarrow> Inl u
                | Inr h \<Rightarrow>
                    read_data L (m\<lparr>stderr := stderr m @ printed h\<rparr>)
                      (sampleSource\<lparr>scale := scale_array h,
                         dataStartOffset := offset wavInfo,
                         numChannels := chans wavInfo,
                         numSamples := WavInfo.numSamples wavInfo,
                         sampleRate := freq wavInfo,
                         startTime := startTime_local h\<rparr>)
                      fp bytes infoComment_copy)"

text \<open>
  The whole function. \<open>sampleSource\<close> is the caller's struct on entry, which the call
  overwrites field by field. The loop of lines 113 to 116 sets every scale to 1; the
  four text buffers are cleared and then written by \<^verbatim>\<open>WavRead\<close> through the pointers
  in \<^verbatim>\<open>wavInfo\<close>, so they hold its texts whether it succeeds or not.
\<close>

definition SampleSourceOpen ::
  "platform \<Rightarrow> libc \<Rightarrow> sys \<Rightarrow> sample_source \<Rightarrow> string \<Rightarrow> undefined_behaviour + open_result" where
  "SampleSourceOpen P L m sampleSource filename =
     (let m = fprintf_stderr m (LoadingHeader filename)
      in case fopen L filename of
           None \<Rightarrow>
             Inr \<lparr>exit = EXIT_NOINPUT, state = fprintf_stderr m ErrorCannotOpen,
                  source = sampleSource\<rparr>
         | Some (fp, bytes) \<Rightarrow>
             let m = m\<lparr>files := insert fp (files m)\<rparr>;
                 (ok, wavInfo) = WavRead P bytes;
                 sampleSource = sampleSource\<lparr>scale := replicate (CHANNELS_MAX P) 1,
                   infoArtist := WavInfo.infoArtist wavInfo,
                   infoName := WavInfo.infoName wavInfo,
                   infoComment := WavInfo.infoComment wavInfo,
                   infoDate := WavInfo.infoDate wavInfo\<rparr>
             in if \<not> ok then
                  Inr \<lparr>exit = EXIT_DATAERR,
                       state = fclose (fprintf_stderr m ErrorReadingFormat) fp,
                       source = sampleSource\<rparr>
                else if bytesPerChannel wavInfo \<noteq> 2 then
                  Inr \<lparr>exit = EXIT_DATAERR,
                       state = fclose (fprintf_stderr m
                                 (ErrorBytesPerChannel (bytesPerChannel wavInfo))) fp,
                       source = sampleSource\<rparr>
                else if chans wavInfo < 1 \<or> chans wavInfo > int (CHANNELS_MAX P) then
                  Inr \<lparr>exit = EXIT_DATAERR,
                       state = fclose (fprintf_stderr m
                                 (ErrorChannels (chans wavInfo) (CHANNELS_MAX P))) fp,
                       source = sampleSource\<rparr>
                else if freq wavInfo < 1 then
                  Inr \<lparr>exit = EXIT_DATAERR,
                       state = fclose (fprintf_stderr m (ErrorFrequency (freq wavInfo))) fp,
                       source = sampleSource\<rparr>
                else load_source P L m sampleSource wavInfo fp bytes)"

subsection \<open>SampleSourceRead\<close>

text \<open>
  \<^verbatim>\<open>index\<close> and \<^verbatim>\<open>minCount\<close> are \<^verbatim>\<open>unsigned int\<close> (32 bits); the product
  \<^verbatim>\<open>sizeof(int16_t) * index * numChannels\<close> is computed in \<^verbatim>\<open>size_t\<close>, a word whose
  width \<open>'a\<close> is left open. The destination \<^verbatim>\<open>span\<close> (here \<open>span_dst\<close>) is \<open>None\<close>
  for \<^verbatim>\<open>NULL\<close> and \<open>Some v\<close> for a pointer to a \<^verbatim>\<open>size_t\<close> that holds \<open>v\<close>; the second component of
  the result is that destination after the call. The returned pointer is the pair of
  the buffer pointer and the byte offset added to it.
\<close>

definition SampleSourceRead ::
  "sample_source \<Rightarrow> 32 word \<Rightarrow> 32 word \<Rightarrow> 'a::len word option
     \<Rightarrow> (nat option \<times> int) \<times> 'a word option" where
  "SampleSourceRead sampleSource index minCount span_dst =
     ((buffer sampleSource,
       dataStartOffset sampleSource
         + uint (2 * ucast index * word_of_int (numChannels sampleSource) :: 'a word)),
      (case span_dst of
         None \<Rightarrow> None
       | Some _ \<Rightarrow> Some (2 * word_of_int (numChannels sampleSource))))"

subsection \<open>SampleSourceClose\<close>

definition SampleSourceClose ::
  "sys \<Rightarrow> sample_source \<Rightarrow> undefined_behaviour + sys \<times> sample_source" where
  "SampleSourceClose m sampleSource =
     (case buffer sampleSource of
        None \<Rightarrow> Inr (m, sampleSource\<lparr>bufferLength := 0\<rparr>)
      | Some p \<Rightarrow>
          (case free_alloc m p of
             Inl u \<Rightarrow> Inl u
           | Inr m' \<Rightarrow> Inr (m', sampleSource\<lparr>buffer := None, bufferLength := 0\<rparr>)))"

section \<open>Concrete inputs\<close>

text \<open>A source with three channels and ten samples, whose buffer is the allocation at
  address 1, and a process state in which that allocation is live.\<close>

definition example_source :: sample_source where
  "example_source =
     \<lparr>scale = [1, 1, 1], infoArtist = [], infoName = [], infoComment = [], infoDate = [],
      dataStartOffset = 44, numChannels = 3, numSamples = 10, sampleRate = 100,
      startTime = 0, buffer = Some 1, bufferLength = 104\<rparr>"

definition example_sys :: sys where
  "example_sys = \<lparr>heap = [1 \<mapsto> replicate 104 (CHR 0x00)], files = {}, stderr = []\<rparr>"

definition empty_sys :: sys where
  "empty_sys = \<lparr>heap = Map.empty, files = {}, stderr = []\<rparr>"

text \<open>
  A platform for the concrete inputs: \<^verbatim>\<open>WavRead\<close> succeeds with the given \<^verbatim>\<open>WavInfo\<close>,
  \<^verbatim>\<open>TimeParse\<close> gives the given time, \<^verbatim>\<open>atof\<close> is computed for the strings
  used here (blanks, then decimal digits), and the conversion to \<^verbatim>\<open>float\<close> is exact, as
  it is for the values used here.
\<close>

definition example_wav :: "int \<Rightarrow> int \<Rightarrow> string \<Rightarrow> WavInfo" where
  "example_wav bpc ch comment =
     \<lparr>bytesPerChannel = bpc, chans = ch, freq = 100, offset = 44, numSamples = 10,
      infoArtist = ''a'', infoName = ''n'', infoComment = comment, infoDate = ''d''\<rparr>"

fun digits_value :: "nat \<Rightarrow> string \<Rightarrow> nat" where
  "digits_value acc [] = acc"
| "digits_value acc (c # cs) =
     (if (48 :: nat) \<le> of_char c \<and> (of_char c :: nat) \<le> 57
      then digits_value (10 * acc + (of_char c - 48)) cs else acc)"

definition example_atof :: "string \<Rightarrow> real" where
  "example_atof s = real (digits_value 0 (dropWhile (\<lambda>c. c = CHR '' '') s))"

definition example_platform :: "nat \<Rightarrow> WavInfo \<Rightarrow> real \<Rightarrow> platform" where
  "example_platform cm w t =
     \<lparr>CHANNELS_MAX = cm, WavRead = (\<lambda>bytes. (True, w)), TimeParse = (\<lambda>s. t),
      atof = example_atof, to_float = (\<lambda>x. x)\<rparr>"

text \<open>
  A C library for the concrete inputs: the file opens, with handle 3 and four bytes;
  \<^verbatim>\<open>strdup\<close> allocates at address 1; \<^verbatim>\<open>malloc\<close> gives \<open>buf\<close>; \<^verbatim>\<open>fread\<close> reads all
  but \<open>short\<close> of the bytes asked for.
\<close>

definition example_libc :: "nat option \<Rightarrow> nat \<Rightarrow> libc" where
  "example_libc buf short =
     \<lparr>fopen = (\<lambda>name. Some (3, ''RIFF'')), strdup = (\<lambda>s. Some 1), malloc = (\<lambda>n. buf),
      fread = (\<lambda>n. n - short)\<rparr>"

section \<open>Properties\<close>

subsection \<open>Reading\<close>

lemma SampleSourceRead_no_wrap:
  fixes span_dst :: "'a::len word option"
  assumes "0 \<le> numChannels s"
    and "2 * uint index * numChannels s < 2 ^ LENGTH('a)"
  shows "fst (SampleSourceRead s index minCount span_dst)
           = (buffer s, dataStartOffset s + 2 * uint index * numChannels s)"
proof -
  have "(2 * ucast index * word_of_int (numChannels s) :: 'a word)
          = word_of_int (2 * uint index * numChannels s)"
    by simp
  moreover have "0 \<le> 2 * uint index * numChannels s"
    using assms(1) by simp
  ultimately have "uint (2 * ucast index * word_of_int (numChannels s) :: 'a word)
          = 2 * uint index * numChannels s"
    using assms(2) by (simp add: word_of_int_inverse)
  then show ?thesis
    by (simp add: SampleSourceRead_def)
qed

text \<open>
  Claim C1. For a source with at least one channel, whose sample data is of a size
  that a \<^verbatim>\<open>size_t\<close> can hold (as it is when the data lies in the buffer), and
  for every index below \<open>numSamples\<close>: the pointer \<^verbatim>\<open>SampleSourceRead\<close> returns is the
  buffer pointer plus \<open>dataStartOffset + 2 * index * numChannels\<close> bytes, and the span it
  stores, when a destination is given, is \<open>2 * numChannels\<close>.
\<close>

theorem SampleSourceRead_offset_and_span:
  fixes span_dst :: "'a::len word option"
  assumes "1 \<le> numChannels s"
    and "uint index < numSamples s"
    and "2 * numSamples s * numChannels s < 2 ^ LENGTH('a)"
  shows "fst (SampleSourceRead s index minCount span_dst)
           = (buffer s, dataStartOffset s + 2 * uint index * numChannels s)
         \<and> map_option uint (snd (SampleSourceRead s index minCount span_dst))
           = map_option (\<lambda>_. 2 * numChannels s) span_dst"
proof -
  have nc: "0 \<le> numChannels s"
    using assms(1) by simp
  have "uint index * numChannels s \<le> numSamples s * numChannels s"
    using assms(2) nc by (intro mult_right_mono) simp_all
  then have idx: "2 * uint index * numChannels s < 2 ^ LENGTH('a)"
    using assms(3) by simp
  have "0 \<le> uint index"
    by simp
  then have "1 \<le> numSamples s"
    using assms(2) by linarith
  then have "1 * numChannels s \<le> numSamples s * numChannels s"
    using nc by (intro mult_right_mono) simp_all
  then have "2 * numChannels s < 2 ^ LENGTH('a)"
    using assms(3) by simp
  moreover have "(2 * word_of_int (numChannels s) :: 'a word) = word_of_int (2 * numChannels s)"
    by simp
  ultimately have sp: "uint (2 * word_of_int (numChannels s) :: 'a word) = 2 * numChannels s"
    using nc by (simp add: word_of_int_inverse)
  show ?thesis
    using SampleSourceRead_no_wrap [OF nc idx, of minCount span_dst] sp
    by (cases span_dst) (simp_all add: SampleSourceRead_def)
qed

theorem SampleSourceRead_offset_and_span_witness:
  "1 \<le> numChannels example_source
   \<and> uint (4 :: 32 word) < numSamples example_source
   \<and> SampleSourceRead example_source 4 1 (Some (0 :: 64 word)) = ((Some 1, 68), Some 6)"
  using SampleSourceRead_offset_and_span [of example_source 4 1 "Some (0 :: 64 word)"]
  by (simp add: example_source_def SampleSourceRead_def)

text \<open>
  Claim C9. The pointer and the span of \<^verbatim>\<open>SampleSourceRead\<close> are the same for any
  two values of \<^verbatim>\<open>minCount\<close>, whatever the source, the index and the span destination
  are: \<^verbatim>\<open>minCount\<close> is not looked at, so nothing is checked against it.
\<close>

theorem SampleSourceRead_ignores_minCount:
  "SampleSourceRead s index m1 span_dst = SampleSourceRead s index m2 span_dst"
  by (simp add: SampleSourceRead_def)

subsection \<open>Closing\<close>

text \<open>
  Claim C7. For a source whose buffer pointer is \<^verbatim>\<open>NULL\<close> or a live allocation,
  \<^verbatim>\<open>SampleSourceClose\<close> returns with \<open>bufferLength = 0\<close>, a \<^verbatim>\<open>NULL\<close> buffer pointer and
  the buffer's allocation released; a second call on the result returns as well (it
  frees nothing, so nothing is freed twice) and leaves the process state and the source
  as they are.
\<close>

theorem SampleSourceClose_idempotent:
  assumes "\<forall>p. buffer s = Some p \<longrightarrow> p \<in> dom (heap m)"
  shows "\<exists>m' s'. SampleSourceClose m s = Inr (m', s')
           \<and> bufferLength s' = 0 \<and> buffer s' = None
           \<and> dom (heap m') = dom (heap m) - set_option (buffer s)
           \<and> SampleSourceClose m' s' = Inr (m', s')"
  using assms by (cases "buffer s") (auto simp: SampleSourceClose_def free_alloc_def)

theorem SampleSourceClose_idempotent_witness:
  "1 \<in> dom (heap example_sys)
   \<and> (\<exists>m' s'. SampleSourceClose example_sys example_source = Inr (m', s')
           \<and> bufferLength s' = 0 \<and> buffer s' = None
           \<and> dom (heap m') = {}
           \<and> SampleSourceClose m' s' = Inr (m', s'))"
  using SampleSourceClose_idempotent [of example_source example_sys]
  by (simp add: example_source_def example_sys_def)

subsection \<open>The lines of the comment text\<close>

lemma strtok_all_line:
  assumes "d \<notin> set l"
  shows "strtok_all d cur (l @ d # rest)
           = (if cur @ l = [] then strtok_all d [] rest else (cur @ l) # strtok_all d [] rest)"
  using assms by (induction l arbitrary: cur) auto

lemma strtok_all_lines:
  assumes "\<forall>l \<in> set ls. l \<noteq> [] \<and> d \<notin> set l"
  shows "strtok_all d [] (concat (map (\<lambda>l. l @ [d]) ls)) = ls"
  using assms
proof (induction ls)
  case Nil
  then show ?case by simp
next
  case (Cons l ls)
  then have l: "l \<noteq> []" "d \<notin> set l"
    and ls: "strtok_all d [] (concat (map (\<lambda>l. l @ [d]) ls)) = ls"
    by simp_all
  have "strtok_all d [] (l @ d # concat (map (\<lambda>l. l @ [d]) ls))
          = l # strtok_all d [] (concat (map (\<lambda>l. l @ [d]) ls))"
    using strtok_all_line [OF l(2), of "[]"] l(1) by simp
  then show ?case
    using ls by simp
qed

lemma strtok_all_last_delimiter:
  "strtok_all d cur (xs @ [d]) = strtok_all d cur xs"
  by (induction xs arbitrary: cur) auto

lemma commentLines_text_of_lines:
  assumes "\<forall>l \<in> set ls. l \<noteq> [] \<and> CHR 0x0A \<notin> set l"
    and "comment = text_of_lines ls \<or> comment @ [CHR 0x0A] = text_of_lines ls"
  shows "commentLines comment = take 32 ls"
proof -
  have "strtok_all CHR 0x0A [] (text_of_lines ls) = ls"
    unfolding text_of_lines_def by (rule strtok_all_lines [OF assms(1)])
  moreover have "strtok_all CHR 0x0A [] comment = strtok_all CHR 0x0A [] (text_of_lines ls)"
    using assms(2) strtok_all_last_delimiter [of "CHR 0x0A" "[]" comment] by auto
  ultimately show ?thesis
    by (simp add: commentLines_def MAX_FIELDS_def)
qed

subsection \<open>The header loop\<close>

lemma scale_line_not_time:
  assumes "is_scale_line line"
  shows "\<not> is_time_line line"
proof
  assume "is_time_line line"
  then have t: "take 5 line = ''Time:''"
    by (simp add: is_time_line_def)
  from assms have s: "take 6 line = ''Scale-''"
    by (simp add: is_scale_line_def)
  have "take 1 (take 6 line) = take 1 (take 5 line)"
    by simp
  then show False
    unfolding s t by simp
qed

lemma scale_chan_le_8: "is_scale_line line \<Longrightarrow> scale_chan line \<le> 8"
  by (auto simp: is_scale_line_def scale_chan_def)

lemma scale_chan_digit:
  "is_scale_line line \<Longrightarrow> of_char (c_at line 6) = scale_chan line + of_char (CHR ''1'')"
  by (auto simp: is_scale_line_def scale_chan_def)

text \<open>The three outcomes of one pass of the loop body.\<close>

lemma parse_line_time:
  "is_time_line line \<Longrightarrow>
   parse_line P h line
     = Inr (h\<lparr>startTime_local := TimeParse P (drop 5 line),
              printed := printed h @ [TimeFound (TimeParse P (drop 5 line))],
              parsedTime := parsedTime h \<or> 0 < TimeParse P (drop 5 line)\<rparr>)"
  by (simp add: parse_line_def Let_def)

lemma parse_line_scale:
  "is_scale_line line \<Longrightarrow> scale_chan line < CHANNELS_MAX P \<Longrightarrow>
   parse_line P h line
     = Inr (h\<lparr>scale_array := (scale_array h)[scale_chan line := scale_value P line],
              printed := printed h @ [ScaleFound (scale_chan line + 1) (atof P (drop 8 line))
                                        (scale_chan line) (scale_value P line)],
              parsedScale := (if 0 < scale_value P line
                              then (parsedScale h)[scale_chan line := True]
                              else parsedScale h)\<rparr>)"
  by (simp add: parse_line_def Let_def scale_line_not_time scale_value_def)

lemma parse_line_scale_out:
  "is_scale_line line \<Longrightarrow> CHANNELS_MAX P \<le> scale_chan line \<Longrightarrow>
   parse_line P h line = Inl (OutOfBoundsWrite (scale_chan line))"
  by (simp add: parse_line_def Let_def scale_line_not_time)

lemma parse_line_other:
  "\<not> is_time_line line \<Longrightarrow> \<not> is_scale_line line \<Longrightarrow> parse_line P h line = Inr h"
  by (simp add: parse_line_def)

lemma parse_line_cases:
  obtains (time) "is_time_line line"
  | (scale) "is_scale_line line" "scale_chan line < CHANNELS_MAX P"
  | (out) "is_scale_line line" "CHANNELS_MAX P \<le> scale_chan line"
  | (other) "\<not> is_time_line line" "\<not> is_scale_line line"
  by (cases "is_time_line line"; cases "is_scale_line line";
      cases "scale_chan line < CHANNELS_MAX P") auto

lemma parse_line_Inl:
  assumes "parse_line P h line = Inl u"
  shows "is_scale_line line \<and> CHANNELS_MAX P \<le> scale_chan line
         \<and> u = OutOfBoundsWrite (scale_chan line)"
proof (rule parse_line_cases [where line = line and P = P])
  assume "is_time_line line"
  with assms show ?thesis by (simp add: parse_line_time)
next
  assume "is_scale_line line" "scale_chan line < CHANNELS_MAX P"
  with assms show ?thesis by (simp add: parse_line_scale)
next
  assume "is_scale_line line" "CHANNELS_MAX P \<le> scale_chan line"
  with assms show ?thesis by (simp add: parse_line_scale_out)
next
  assume "\<not> is_time_line line" "\<not> is_scale_line line"
  with assms show ?thesis by (simp add: parse_line_other)
qed

lemma parse_line_Inr:
  assumes "parse_line P h line = Inr h'"
  shows "length (scale_array h') = length (scale_array h)"
    and "length (parsedScale h') = length (parsedScale h)"
    and "parsedTime h' = (parsedTime h \<or> is_time_line line \<and> 0 < TimeParse P (drop 5 line))"
    and "i < length (parsedScale h) \<Longrightarrow>
           parsedScale h' ! i
             = (parsedScale h ! i
                \<or> is_scale_line line \<and> scale_chan line = i \<and> 0 < scale_value P line)"
    and "\<not> (is_scale_line line \<and> scale_chan line = i) \<Longrightarrow>
           scale_array h' ! i = scale_array h ! i"
    and "filter is_warning (printed h') = filter is_warning (printed h)"
    and "is_scale_line line \<Longrightarrow> scale_chan line < CHANNELS_MAX P"
proof -
  have "length (scale_array h') = length (scale_array h)
      \<and> length (parsedScale h') = length (parsedScale h)
      \<and> parsedTime h' = (parsedTime h \<or> is_time_line line \<and> 0 < TimeParse P (drop 5 line))
      \<and> (i < length (parsedScale h) \<longrightarrow>
           parsedScale h' ! i
             = (parsedScale h ! i
                \<or> is_scale_line line \<and> scale_chan line = i \<and> 0 < scale_value P line))
      \<and> (\<not> (is_scale_line line \<and> scale_chan line = i) \<longrightarrow>
           scale_array h' ! i = scale_array h ! i)
      \<and> filter is_warning (printed h') = filter is_warning (printed h)
      \<and> (is_scale_line line \<longrightarrow> scale_chan line < CHANNELS_MAX P)"
  proof (rule parse_line_cases [where line = line and P = P])
    assume t: "is_time_line line"
    then have "\<not> is_scale_line line"
      using scale_line_not_time by blast
    moreover from t assms
    have "h' = h\<lparr>startTime_local := TimeParse P (drop 5 line),
                 printed := printed h @ [TimeFound (TimeParse P (drop 5 line))],
                 parsedTime := parsedTime h \<or> 0 < TimeParse P (drop 5 line)\<rparr>"
      by (simp add: parse_line_time)
    ultimately show ?thesis
      using t by simp
  next
    assume sc: "is_scale_line line" "scale_chan line < CHANNELS_MAX P"
    then have nt: "\<not> is_time_line line"
      using scale_line_not_time by blast
    from sc assms
    have "h' = h\<lparr>scale_array := (scale_array h)[scale_chan line := scale_value P line],
              printed := printed h @ [ScaleFound (scale_chan line + 1) (atof P (drop 8 line))
                                        (scale_chan line) (scale_value P line)],
              parsedScale := (if 0 < scale_value P line
                              then (parsedScale h)[scale_chan line := True]
                              else parsedScale h)\<rparr>"
      by (simp add: parse_line_scale)
    then show ?thesis
      using sc nt by (cases "scale_chan line = i") (auto simp: nth_list_update)
  next
    assume "is_scale_line line" "CHANNELS_MAX P \<le> scale_chan line"
    with assms show ?thesis by (simp add: parse_line_scale_out)
  next
    assume o: "\<not> is_time_line line" "\<not> is_scale_line line"
    with assms have "h' = h" by (simp add: parse_line_other)
    with o show ?thesis by simp
  qed
  then show "length (scale_array h') = length (scale_array h)"
    and "length (parsedScale h') = length (parsedScale h)"
    and "parsedTime h' = (parsedTime h \<or> is_time_line line \<and> 0 < TimeParse P (drop 5 line))"
    and "i < length (parsedScale h) \<Longrightarrow>
           parsedScale h' ! i
             = (parsedScale h ! i
                \<or> is_scale_line line \<and> scale_chan line = i \<and> 0 < scale_value P line)"
    and "\<not> (is_scale_line line \<and> scale_chan line = i) \<Longrightarrow>
           scale_array h' ! i = scale_array h ! i"
    and "filter is_warning (printed h') = filter is_warning (printed h)"
    and "is_scale_line line \<Longrightarrow> scale_chan line < CHANNELS_MAX P"
    by blast+
qed

lemma for_each_parse_Inl:
  assumes "for_each (parse_line P) h ls = Inl u"
  shows "\<exists>l \<in> set ls. is_scale_line l \<and> CHANNELS_MAX P \<le> scale_chan l
           \<and> u = OutOfBoundsWrite (scale_chan l)"
  using assms
proof (induction ls arbitrary: h)
  case Nil
  then show ?case by simp
next
  case (Cons l ls)
  show ?case
  proof (cases "parse_line P h l")
    case (Inl v)
    with Cons.prems have "v = u" by simp
    with Inl parse_line_Inl [of P h l u] show ?thesis by simp
  next
    case (Inr h1)
    with Cons.prems have "for_each (parse_line P) h1 ls = Inl u" by simp
    from Cons.IH [OF this] show ?thesis by auto
  qed
qed

lemma for_each_parse_defined:
  assumes "\<forall>l \<in> set ls. is_scale_line l \<longrightarrow> scale_chan l < CHANNELS_MAX P"
  shows "\<exists>h'. for_each (parse_line P) h ls = Inr h'"
proof (cases "for_each (parse_line P) h ls")
  case (Inl u)
  from for_each_parse_Inl [OF this] assms show ?thesis
    by (auto simp: not_le [symmetric])
next
  case (Inr h')
  then show ?thesis by simp
qed

lemma for_each_parse_Inr:
  assumes "for_each (parse_line P) h ls = Inr h'"
  shows "length (scale_array h') = length (scale_array h)"
    and "length (parsedScale h') = length (parsedScale h)"
    and "parsedTime h'
           = (parsedTime h \<or> (\<exists>l \<in> set ls. is_time_line l \<and> 0 < TimeParse P (drop 5 l)))"
    and "i < length (parsedScale h) \<Longrightarrow>
           parsedScale h' ! i
             = (parsedScale h ! i
                \<or> (\<exists>l \<in> set ls. is_scale_line l \<and> scale_chan l = i \<and> 0 < scale_value P l))"
    and "\<forall>l \<in> set ls. \<not> (is_scale_line l \<and> scale_chan l = i) \<Longrightarrow>
           scale_array h' ! i = scale_array h ! i"
    and "filter is_warning (printed h') = filter is_warning (printed h)"
    and "\<forall>l \<in> set ls. is_scale_line l \<longrightarrow> scale_chan l < CHANNELS_MAX P"
  using assms
proof (induction ls arbitrary: h)
  case Nil
  {
    case 1 then show ?case by simp
  next
    case 2 then show ?case by simp
  next
    case 3 then show ?case by simp
  next
    case 4 then show ?case by simp
  next
    case 5 then show ?case by simp
  next
    case 6 then show ?case by simp
  next
    case 7 then show ?case by simp
  }
next
  case (Cons l ls)
  {
    case 1
    then obtain h1 where a: "parse_line P h l = Inr h1" and b: "for_each (parse_line P) h1 ls = Inr h'"
      by (auto split: sum.splits)
    from Cons.IH(1) [OF b] parse_line_Inr(1) [OF a] show ?case by simp
  next
    case 2
    then obtain h1 where a: "parse_line P h l = Inr h1" and b: "for_each (parse_line P) h1 ls = Inr h'"
      by (auto split: sum.splits)
    from Cons.IH(2) [OF b] parse_line_Inr(2) [OF a] show ?case by simp
  next
    case 3
    then obtain h1 where a: "parse_line P h l = Inr h1" and b: "for_each (parse_line P) h1 ls = Inr h'"
      by (auto split: sum.splits)
    from Cons.IH(3) [OF b] parse_line_Inr(3) [OF a] show ?case by auto
  next
    case 4
    then obtain h1 where a: "parse_line P h l = Inr h1" and b: "for_each (parse_line P) h1 ls = Inr h'"
      by (auto split: sum.splits)
    from 4 parse_line_Inr(2) [OF a] have "i < length (parsedScale h1)" by simp
    from Cons.IH(4) [OF this b] parse_line_Inr(4) [OF a 4(1)] show ?case by auto
  next
    case 5
    then obtain h1 where a: "parse_line P h l = Inr h1" and b: "for_each (parse_line P) h1 ls = Inr h'"
      by (auto split: sum.splits)
    from 5 have "\<forall>l \<in> set ls. \<not> (is_scale_line l \<and> scale_chan l = i)"
      and "\<not> (is_scale_line l \<and> scale_chan l = i)" by simp_all
    from Cons.IH(5) [OF this(1) b] parse_line_Inr(5) [OF a this(2)] show ?case by simp
  next
    case 6
    then obtain h1 where a: "parse_line P h l = Inr h1" and b: "for_each (parse_line P) h1 ls = Inr h'"
      by (auto split: sum.splits)
    from Cons.IH(6) [OF b] parse_line_Inr(6) [OF a] show ?case by simp
  next
    case 7
    then obtain h1 where a: "parse_line P h l = Inr h1" and b: "for_each (parse_line P) h1 ls = Inr h'"
      by (auto split: sum.splits)
    from Cons.IH(7) [OF b] parse_line_Inr(7) [OF a] show ?case by simp
  }
qed

lemma for_each_parse_startTime:
  assumes "for_each (parse_line P) h ls = Inr h'"
  shows "startTime_local h'
           = (if time_lines ls = [] then startTime_local h
              else TimeParse P (drop 5 (last (time_lines ls))))"
  using assms
proof (induction ls arbitrary: h)
  case Nil
  then show ?case by (simp add: time_lines_def)
next
  case (Cons l ls)
  then obtain h1 where a: "parse_line P h l = Inr h1"
    and b: "for_each (parse_line P) h1 ls = Inr h'"
    by (auto split: sum.splits)
  have h1: "startTime_local h1
              = (if is_time_line l then TimeParse P (drop 5 l) else startTime_local h)"
  proof (rule parse_line_cases [where line = l and P = P])
    assume "is_time_line l"
    with a show ?thesis by (auto simp: parse_line_time)
  next
    assume "is_scale_line l" "scale_chan l < CHANNELS_MAX P"
    with a scale_line_not_time [of l] show ?thesis by (auto simp: parse_line_scale)
  next
    assume "is_scale_line l" "CHANNELS_MAX P \<le> scale_chan l"
    with a show ?thesis by (simp add: parse_line_scale_out)
  next
    assume "\<not> is_time_line l" "\<not> is_scale_line l"
    with a show ?thesis by (simp add: parse_line_other)
  qed
  from Cons.IH [OF b] h1 show ?case
    by (simp add: time_lines_def)
qed

lemma for_each_parse_scale:
  assumes "for_each (parse_line P) h ls = Inr h'"
    and "i < length (scale_array h)"
  shows "scale_array h' ! i
           = (if scale_lines i ls = [] then scale_array h ! i
              else scale_value P (last (scale_lines i ls)))"
  using assms
proof (induction ls arbitrary: h)
  case Nil
  then show ?case by (simp add: scale_lines_def)
next
  case (Cons l ls)
  then obtain h1 where a: "parse_line P h l = Inr h1"
    and b: "for_each (parse_line P) h1 ls = Inr h'"
    by (auto split: sum.splits)
  have len: "i < length (scale_array h1)"
    using parse_line_Inr(1) [OF a] Cons.prems(2) by simp
  have h1: "scale_array h1 ! i
              = (if is_scale_line l \<and> scale_chan l = i then scale_value P l
                 else scale_array h ! i)"
  proof (cases "is_scale_line l \<and> scale_chan l = i")
    case True
    with parse_line_Inr(7) [OF a] have "scale_chan l < CHANNELS_MAX P" by simp
    with True a Cons.prems(2) show ?thesis
      by (auto simp: parse_line_scale)
  next
    case False
    from parse_line_Inr(5) [OF a False] False show ?thesis by auto
  qed
  from Cons.IH [OF b len] h1 show ?case
    by (simp add: scale_lines_def)
qed

subsection \<open>The header stage\<close>

lemma check_scales_defined:
  assumes "3 \<le> CHANNELS_MAX P"
  shows "for_each (check_scale P) h [0, 1, 2]
           = Inr (h\<lparr>printed := printed h
                    @ map (\<lambda>i. WarningScale (i + 1))
                        (filter (\<lambda>i. \<not> parsedScale h ! i) [0, 1, 2])\<rparr>)"
  using assms by (simp add: check_scale_def)

lemma check_scales_undefined:
  assumes "CHANNELS_MAX P < 3"
  shows "for_each (check_scale P) h [0, 1, 2] = Inl (OutOfBoundsRead (CHANNELS_MAX P))"
proof -
  from assms consider "CHANNELS_MAX P = 0" | "CHANNELS_MAX P = 1" | "CHANNELS_MAX P = 2"
    by linarith
  then show ?thesis
    by cases (simp_all add: check_scale_def)
qed

lemma parse_headers_Inl:
  assumes "parse_headers P sc comment = Inl u"
  shows "(\<exists>l \<in> set (commentLines comment). is_scale_line l \<and> CHANNELS_MAX P \<le> scale_chan l
            \<and> u = OutOfBoundsWrite (scale_chan l))
         \<or> CHANNELS_MAX P < 3 \<and> u = OutOfBoundsRead (CHANNELS_MAX P)"
proof (cases "for_each (parse_line P)
               \<lparr>parsedTime = False, parsedScale = replicate (CHANNELS_MAX P) False,
                startTime_local = 0, scale_array = sc, printed = []\<rparr>
               (commentLines comment)")
  case (Inl v)
  with assms have "v = u"
    by (simp add: parse_headers_def)
  with for_each_parse_Inl [OF Inl] show ?thesis
    by blast
next
  case (Inr h)
  with assms have c: "for_each (check_scale P) (check_time h) [0, 1, 2] = Inl u"
    by (simp add: parse_headers_def)
  show ?thesis
  proof (cases "3 \<le> CHANNELS_MAX P")
    case True
    from c check_scales_defined [OF True, of "check_time h"] show ?thesis
      by simp
  next
    case False
    then have "CHANNELS_MAX P < 3" by simp
    from c check_scales_undefined [OF this, of "check_time h"] this show ?thesis
      by simp
  qed
qed

lemma parse_headers_defined:
  assumes "3 \<le> CHANNELS_MAX P"
    and "\<forall>l \<in> set (commentLines comment). is_scale_line l \<longrightarrow> scale_chan l < CHANNELS_MAX P"
  shows "\<exists>h. parse_headers P sc comment = Inr h"
proof (cases "parse_headers P sc comment")
  case (Inl u)
  from parse_headers_Inl [OF this] assms show ?thesis
    by (auto simp: not_le [symmetric])
next
  case (Inr h)
  then show ?thesis by simp
qed

lemma parse_headers_Inr:
  assumes "parse_headers P sc comment = Inr h"
    and "length sc = CHANNELS_MAX P"
  shows "3 \<le> CHANNELS_MAX P"
    and "length (scale_array h) = CHANNELS_MAX P"
    and "startTime_local h
           = (if time_lines (commentLines comment) = [] then 0
              else TimeParse P (drop 5 (last (time_lines (commentLines comment)))))"
    and "i < CHANNELS_MAX P \<Longrightarrow>
           scale_array h ! i
             = (if scale_lines i (commentLines comment) = [] then sc ! i
                else scale_value P (last (scale_lines i (commentLines comment))))"
    and "filter is_warning (printed h)
           = (if valid_time P (commentLines comment) then [] else [WarningTime])
             @ map (\<lambda>i. WarningScale (i + 1))
                 (filter (\<lambda>i. \<not> valid_scale P i (commentLines comment)) [0, 1, 2])"
    and "\<forall>l \<in> set (commentLines comment). is_scale_line l \<longrightarrow> scale_chan l < CHANNELS_MAX P"
proof -
  define h0 where "h0 = \<lparr>parsedTime = False, parsedScale = replicate (CHANNELS_MAX P) False,
                startTime_local = 0, scale_array = sc, printed = []\<rparr>"
  define ls where "ls = commentLines comment"
  from assms(1) obtain h1 where loop: "for_each (parse_line P) h0 ls = Inr h1"
    and chk: "for_each (check_scale P) (check_time h1) [0, 1, 2] = Inr h"
    by (auto simp: parse_headers_def h0_def ls_def split: sum.splits)
  show cm: "3 \<le> CHANNELS_MAX P"
  proof (rule ccontr)
    assume "\<not> 3 \<le> CHANNELS_MAX P"
    then have "CHANNELS_MAX P < 3" by simp
    from check_scales_undefined [OF this, of "check_time h1"] chk show False
      by simp
  qed
  from chk check_scales_defined [OF cm, of "check_time h1"]
  have h: "h = (check_time h1)\<lparr>printed := printed (check_time h1)
                    @ map (\<lambda>i. WarningScale (i + 1))
                        (filter (\<lambda>i. \<not> parsedScale (check_time h1) ! i) [0, 1, 2])\<rparr>"
    by simp
  have ps: "parsedScale h1 ! i = valid_scale P i ls" if "i < 3" for i
    using for_each_parse_Inr(4) [OF loop, of i] that cm
    by (simp add: h0_def valid_scale_def)
  have pt: "parsedTime h1 = valid_time P ls"
    using for_each_parse_Inr(3) [OF loop] by (simp add: h0_def valid_time_def)
  have pr: "filter is_warning (printed h1) = []"
    using for_each_parse_Inr(6) [OF loop] by (simp add: h0_def)
  show "length (scale_array h) = CHANNELS_MAX P"
    using for_each_parse_Inr(1) [OF loop] assms(2) by (simp add: h check_time_def h0_def)
  show "startTime_local h
           = (if time_lines (commentLines comment) = [] then 0
              else TimeParse P (drop 5 (last (time_lines (commentLines comment)))))"
    using for_each_parse_startTime [OF loop] by (simp add: h check_time_def h0_def ls_def)
  show "scale_array h ! i
             = (if scale_lines i (commentLines comment) = [] then sc ! i
                else scale_value P (last (scale_lines i (commentLines comment))))"
    if "i < CHANNELS_MAX P"
    using for_each_parse_scale [OF loop, of i] that assms(2)
    by (simp add: h check_time_def h0_def ls_def)
  show "filter is_warning (printed h)
           = (if valid_time P (commentLines comment) then [] else [WarningTime])
             @ map (\<lambda>i. WarningScale (i + 1))
                 (filter (\<lambda>i. \<not> valid_scale P i (commentLines comment)) [0, 1, 2])"
    using ps [of 0] ps [of 1] ps [of 2] pt pr
    by (simp add: h check_time_def ls_def)
  show "\<forall>l \<in> set (commentLines comment). is_scale_line l \<longrightarrow> scale_chan l < CHANNELS_MAX P"
    using for_each_parse_Inr(7) [OF loop] by (simp add: ls_def)
qed

subsection \<open>The call as a whole\<close>

lemma read_data_exit:
  "read_data L m s fp bytes ic = Inr r \<Longrightarrow> exit r \<noteq> EXIT_DATAERR \<and> exit r \<noteq> EXIT_NOINPUT"
  by (auto simp: read_data_def Let_def split: option.splits sum.splits if_splits)

lemma load_source_exit:
  "load_source P L m s w fp bytes = Inr r \<Longrightarrow> exit r \<noteq> EXIT_DATAERR \<and> exit r \<noteq> EXIT_NOINPUT"
  by (auto simp: load_source_def Let_def split: option.splits sum.splits dest: read_data_exit)

lemma read_data_failure:
  assumes "read_data L m s fp bytes ic = Inr r" and "exit r \<noteq> EXIT_OK"
  shows "files (state r) = files m - {fp} \<and> source r = s
         \<and> dom (heap (state r)) \<subseteq> dom (heap m)"
  using assms
  by (auto simp: read_data_def Let_def fclose_def fprintf_stderr_def free_alloc_def
      split: option.splits sum.splits if_splits)

lemma load_source_failure:
  assumes "load_source P L m s w fp bytes = Inr r" and "exit r \<noteq> EXIT_OK"
  shows "files (state r) = files m - {fp}
         \<and> buffer (source r) = buffer s \<and> bufferLength (source r) = bufferLength s
         \<and> dom (heap (state r)) - dom (heap m) \<subseteq> {a. \<exists>t. strdup L t = Some a}"
proof (cases "strdup L (c_str (WavInfo.infoComment w))")
  case None
  with assms(1) show ?thesis
    by (simp add: load_source_def)
next
  case (Some ic)
  show ?thesis
  proof (cases "parse_headers P (scale s) (c_str (WavInfo.infoComment w))")
    case (Inl u)
    with assms(1) Some show ?thesis
      by (simp add: load_source_def)
  next
    case (Inr h)
    with assms(1) Some
    have rd: "read_data L
               (m\<lparr>heap := (heap m)(ic \<mapsto> c_str (WavInfo.infoComment w)),
                  stderr := stderr m @ printed h\<rparr>)
               (s\<lparr>scale := scale_array h, dataStartOffset := offset w,
                  numChannels := chans w, numSamples := WavInfo.numSamples w,
                  sampleRate := freq w, startTime := startTime_local h\<rparr>)
               fp bytes ic = Inr r"
      by (simp add: load_source_def)
    from read_data_failure [OF rd assms(2)] Some show ?thesis
      by auto
  qed
qed

lemma read_data_ok:
  assumes "read_data L m s fp bytes ic = Inr r" and "exit r = EXIT_OK"
  shows "\<exists>buf. malloc L (length bytes) = Some buf
           \<and> fread L (length bytes) = length bytes
           \<and> source r = s\<lparr>buffer := Some buf, bufferLength := int (length bytes)\<rparr>
           \<and> stderr (state r) = stderr m @ [Allocating (int (length bytes))]
           \<and> files (state r) = files m - {fp}
           \<and> heap (state r) = ((heap m)(buf \<mapsto> bytes))(ic := None)"
  using assms
  by (auto simp: read_data_def Let_def fclose_def fprintf_stderr_def free_alloc_def
      split: option.splits sum.splits if_splits)

lemma load_source_ok:
  assumes "load_source P L m s w fp bytes = Inr r" and "exit r = EXIT_OK"
  shows "\<exists>h. parse_headers P (scale s) (c_str (WavInfo.infoComment w)) = Inr h
           \<and> scale (source r) = scale_array h
           \<and> startTime (source r) = startTime_local h
           \<and> dataStartOffset (source r) = offset w
           \<and> numChannels (source r) = chans w
           \<and> numSamples (source r) = WavInfo.numSamples w
           \<and> sampleRate (source r) = freq w
           \<and> bufferLength (source r) = int (length bytes)
           \<and> buffer (source r) = malloc L (length bytes)
           \<and> stderr (state r) = stderr m @ printed h @ [Allocating (int (length bytes))]
           \<and> files (state r) = files m - {fp}"
proof (cases "strdup L (c_str (WavInfo.infoComment w))")
  case None
  with assms(1) show ?thesis
    by (simp add: load_source_def)
next
  case (Some ic)
  show ?thesis
  proof (cases "parse_headers P (scale s) (c_str (WavInfo.infoComment w))")
    case (Inl u)
    with assms(1) Some show ?thesis
      by (simp add: load_source_def)
  next
    case (Inr h)
    with assms(1) Some
    have rd: "read_data L
               (m\<lparr>heap := (heap m)(ic \<mapsto> c_str (WavInfo.infoComment w)),
                  stderr := stderr m @ printed h\<rparr>)
               (s\<lparr>scale := scale_array h, dataStartOffset := offset w,
                  numChannels := chans w, numSamples := WavInfo.numSamples w,
                  sampleRate := freq w, startTime := startTime_local h\<rparr>)
               fp bytes ic = Inr r"
      by (simp add: load_source_def)
    from read_data_ok [OF rd assms(2)] obtain buf
      where "malloc L (length bytes) = Some buf"
        and "source r = s\<lparr>scale := scale_array h, dataStartOffset := offset w,
                  numChannels := chans w, numSamples := WavInfo.numSamples w,
                  sampleRate := freq w, startTime := startTime_local h,
                  buffer := Some buf, bufferLength := int (length bytes)\<rparr>"
        and "stderr (state r) = stderr m @ printed h @ [Allocating (int (length bytes))]"
        and "files (state r) = files m - {fp}"
      by auto
    with Inr show ?thesis
      by (intro exI [of _ h]) simp
  qed
qed

lemma SampleSourceOpen_ok:
  assumes "SampleSourceOpen P L m s filename = Inr r" and "exit r = EXIT_OK"
    and "fopen L filename = Some (fp, bytes)" and "WavRead P bytes = (ok, w)"
  shows "\<exists>h. parse_headers P (replicate (CHANNELS_MAX P) 1) (c_str (WavInfo.infoComment w))
                = Inr h
           \<and> scale (source r) = scale_array h
           \<and> startTime (source r) = startTime_local h
           \<and> numChannels (source r) = chans w
           \<and> 1 \<le> chans w \<and> chans w \<le> int (CHANNELS_MAX P)
           \<and> stderr (state r)
               = stderr m @ [LoadingHeader filename] @ printed h
                 @ [Allocating (int (length bytes))]"
proof (cases "ok \<and> bytesPerChannel w = 2 \<and> 1 \<le> chans w
               \<and> chans w \<le> int (CHANNELS_MAX P) \<and> 1 \<le> freq w")
  case True
  define m' where "m' = m\<lparr>stderr := stderr m @ [LoadingHeader filename],
                          files := insert fp (files m)\<rparr>"
  define s' where "s' = s\<lparr>scale := replicate (CHANNELS_MAX P) 1,
                   infoArtist := WavInfo.infoArtist w,
                   infoName := WavInfo.infoName w,
                   infoComment := WavInfo.infoComment w,
                   infoDate := WavInfo.infoDate w\<rparr>"
  from True assms(1,3,4) have ld: "load_source P L m' s' w fp bytes = Inr r"
    by (simp add: SampleSourceOpen_def Let_def fprintf_stderr_def m'_def s'_def)
  from load_source_ok [OF ld assms(2)] obtain h
    where "parse_headers P (scale s') (c_str (WavInfo.infoComment w)) = Inr h"
      and "scale (source r) = scale_array h"
      and "startTime (source r) = startTime_local h"
      and "numChannels (source r) = chans w"
      and "stderr (state r) = stderr m' @ printed h @ [Allocating (int (length bytes))]"
    by blast
  with True show ?thesis
    by (intro exI [of _ h]) (simp add: m'_def s'_def)
next
  case False
  with assms(1,3,4) have "exit r = EXIT_DATAERR"
    by (auto simp: SampleSourceOpen_def Let_def split: if_splits)
  with assms(2) show ?thesis
    by simp
qed

lemma SampleSourceOpen_succeeds:
  assumes "fopen L filename = Some (fp, bytes)" and "WavRead P bytes = (True, w)"
    and "bytesPerChannel w = 2" and "1 \<le> chans w" and "chans w \<le> int (CHANNELS_MAX P)"
    and "1 \<le> freq w"
    and "strdup L (c_str (WavInfo.infoComment w)) = Some ic"
    and "parse_headers P (replicate (CHANNELS_MAX P) 1) (c_str (WavInfo.infoComment w)) = Inr h"
    and "malloc L (length bytes) = Some buf"
    and "fread L (length bytes) = length bytes"
  shows "\<exists>r. SampleSourceOpen P L m s filename = Inr r \<and> exit r = EXIT_OK"
  using assms
  by (simp add: SampleSourceOpen_def load_source_def read_data_def Let_def free_alloc_def
      fclose_def fprintf_stderr_def)

subsection \<open>The concrete inputs, evaluated\<close>

lemma example_platform_sel:
  "CHANNELS_MAX (example_platform cm w t) = cm"
  "WavRead (example_platform cm w t) bytes = (True, w)"
  "TimeParse (example_platform cm w t) str = t"
  "atof (example_platform cm w t) str = example_atof str"
  "to_float (example_platform cm w t) x = x"
  by (simp_all add: example_platform_def)

lemma example_libc_sel:
  "fopen (example_libc buf short) name = Some (3, ''RIFF'')"
  "strdup (example_libc buf short) str = Some 1"
  "malloc (example_libc buf short) n = buf"
  "fread (example_libc buf short) n = n - short"
  by (simp_all add: example_libc_def)

lemma example_atof_values:
  "example_atof '' 16384'' = 16384"
  "example_atof '' 8192'' = 8192"
  "example_atof '' 100'' = 100"
  "example_atof '' 0'' = 0"
  "example_atof '' 1'' = 1"
  by (simp_all add: example_atof_def)

lemma replicate_16: "replicate 16 x = [x, x, x, x, x, x, x, x, x, x, x, x, x, x, x, x]"
  by (simp add: numeral_eq_Suc)

lemma c_str_examples:
  "c_str ''Scale-1: 16384'' = ''Scale-1: 16384''"
  "c_str ''Scale-5: 100'' = ''Scale-5: 100''"
  "c_str ''Scale-1: 0'' = ''Scale-1: 0''"
  "c_str ''Time: 1969-12-31 23:59:59'' = ''Time: 1969-12-31 23:59:59''"
  by (simp_all add: c_str_def)

lemma commentLines_examples:
  "commentLines ''Scale-1: 16384'' = [''Scale-1: 16384'']"
  "commentLines ''Scale-5: 100'' = [''Scale-5: 100'']"
  "commentLines ''Scale-1: 0'' = [''Scale-1: 0'']"
  "commentLines ''Scale-9: 1'' = [''Scale-9: 1'']"
  "commentLines ''Time: 1969-12-31 23:59:59'' = [''Time: 1969-12-31 23:59:59'']"
  "commentLines ''Time: 2020-01-01T00:00:00Z\<newline>Scale-1: 16384\<newline>Scale-2: 8192\<newline>''
     = [''Time: 2020-01-01T00:00:00Z'', ''Scale-1: 16384'', ''Scale-2: 8192'']"
  by (simp_all add: commentLines_def MAX_FIELDS_def)

lemma line_kinds:
  "is_scale_line ''Scale-1: 16384''" "scale_chan ''Scale-1: 16384'' = 0"
  "is_scale_line ''Scale-2: 8192''" "scale_chan ''Scale-2: 8192'' = 1"
  "is_scale_line ''Scale-5: 100''" "scale_chan ''Scale-5: 100'' = 4"
  "is_scale_line ''Scale-1: 0''" "scale_chan ''Scale-1: 0'' = 0"
  "is_scale_line ''Scale-9: 1''" "scale_chan ''Scale-9: 1'' = 8"
  "is_time_line ''Time: 2020-01-01T00:00:00Z''"
  "\<not> is_scale_line ''Time: 2020-01-01T00:00:00Z''"
  "is_time_line ''Time: 1969-12-31 23:59:59''"
  "\<not> is_scale_line ''Time: 1969-12-31 23:59:59''"
  "\<not> is_time_line ''Scale-1: 16384''"
  "\<not> is_time_line ''Scale-2: 8192''"
  "\<not> is_time_line ''Scale-5: 100''"
  "\<not> is_time_line ''Scale-1: 0''"
  "\<not> is_time_line ''Scale-9: 1''"
  by (simp_all add: is_scale_line_def scale_chan_def is_time_line_def c_at_def)

lemma scale_value_examples:
  "atof P '' 16384'' = 16384 \<Longrightarrow> to_float P (1 / 2) = 1 / 2 \<Longrightarrow>
     scale_value P ''Scale-1: 16384'' = 1 / 2"
  "atof P '' 8192'' = 8192 \<Longrightarrow> to_float P (1 / 4) = 1 / 4 \<Longrightarrow>
     scale_value P ''Scale-2: 8192'' = 1 / 4"
  "atof P '' 100'' = 100 \<Longrightarrow> to_float P (100 / 32768) = 100 / 32768 \<Longrightarrow>
     scale_value P ''Scale-5: 100'' = 100 / 32768"
  "atof P '' 0'' = 0 \<Longrightarrow> to_float P 0 = 0 \<Longrightarrow> scale_value P ''Scale-1: 0'' = 0"
proof -
  have a: "(16384 :: real) / 32768 = 1 / 2" "(8192 :: real) / 32768 = 1 / 4"
    by simp_all
  have d: "drop 8 ''Scale-1: 16384'' = '' 16384''" "drop 8 ''Scale-2: 8192'' = '' 8192''"
    "drop 8 ''Scale-5: 100'' = '' 100''" "drop 8 ''Scale-1: 0'' = '' 0''"
    by simp_all
  show "atof P '' 16384'' = 16384 \<Longrightarrow> to_float P (1 / 2) = 1 / 2 \<Longrightarrow>
     scale_value P ''Scale-1: 16384'' = 1 / 2"
    unfolding scale_value_def d by (simp only: a)
  show "atof P '' 8192'' = 8192 \<Longrightarrow> to_float P (1 / 4) = 1 / 4 \<Longrightarrow>
     scale_value P ''Scale-2: 8192'' = 1 / 4"
    unfolding scale_value_def d by (simp only: a)
  show "atof P '' 100'' = 100 \<Longrightarrow> to_float P (100 / 32768) = 100 / 32768 \<Longrightarrow>
     scale_value P ''Scale-5: 100'' = 100 / 32768"
    unfolding scale_value_def d by (simp only:)
  show "atof P '' 0'' = 0 \<Longrightarrow> to_float P 0 = 0 \<Longrightarrow> scale_value P ''Scale-1: 0'' = 0"
    unfolding scale_value_def d by (simp only: div_0)
qed

lemma parse_headers_Scale_9:
  assumes "CHANNELS_MAX P < 9"
  shows "parse_headers P sc ''Scale-9: 1'' = Inl (OutOfBoundsWrite 8)"
proof -
  have "parse_line P h ''Scale-9: 1'' = Inl (OutOfBoundsWrite 8)" for h
    using parse_line_scale_out [of "''Scale-9: 1''" P h] assms
    by (simp add: line_kinds)
  then show ?thesis
    by (simp add: parse_headers_def commentLines_examples)
qed

lemma example_open_ok:
  assumes "3 \<le> cm" and "1 \<le> ch" and "ch \<le> int cm"
    and "\<forall>l \<in> set (commentLines (c_str comment)). is_scale_line l \<longrightarrow> scale_chan l < cm"
  shows "\<exists>r. SampleSourceOpen (example_platform cm (example_wav 2 ch comment) t)
               (example_libc (Some 2) 0) m s filename = Inr r
             \<and> exit r = EXIT_OK"
proof -
  let ?P = "example_platform cm (example_wav 2 ch comment) t"
  have "\<exists>h. parse_headers ?P (replicate (CHANNELS_MAX ?P) 1) (c_str comment) = Inr h"
    by (rule parse_headers_defined) (use assms in \<open>simp_all add: example_platform_sel\<close>)
  then obtain h
    where "parse_headers ?P (replicate (CHANNELS_MAX ?P) 1)
             (c_str (WavInfo.infoComment (example_wav 2 ch comment))) = Inr h"
    by (auto simp: example_wav_def)
  then show ?thesis
    by (rule SampleSourceOpen_succeeds [rotated 7])
      (use assms in \<open>simp_all add: example_platform_sel example_libc_sel example_wav_def\<close>)
qed

text \<open>
  The file opens, its format is accepted and its comment is \<^verbatim>\<open>Scale-1: 16384\<close>, and
  \<^verbatim>\<open>malloc\<close> returns \<^verbatim>\<open>NULL\<close>. The call returns \<^verbatim>\<open>EXIT_SOFTWARE\<close>; the copy of the
  comment text is still allocated (the heap was empty before the call), and the scale,
  the texts and the header fields of the source are overwritten, while its buffer
  pointer and buffer length are those of before the call.
\<close>

lemma SampleSourceOpen_example_no_memory:
  "SampleSourceOpen (example_platform 16 (example_wav 2 3 ''Scale-1: 16384'') 7)
     (example_libc None 0) empty_sys example_source ''f.wav''
   = Inr \<lparr>exit = EXIT_SOFTWARE,
          state = \<lparr>heap = [1 \<mapsto> ''Scale-1: 16384''], files = {},
                   stderr = [LoadingHeader ''f.wav'', ScaleFound 1 16384 0 (1 / 2),
                     WarningTime, WarningScale 2, WarningScale 3, Allocating 4,
                     ErrorAllocating 4]\<rparr>,
          source = \<lparr>scale = [1 / 2, 1, 1, 1, 1, 1, 1, 1, 1, 1, 1, 1, 1, 1, 1, 1],
                    infoArtist = ''a'', infoName = ''n'', infoComment = ''Scale-1: 16384'',
                    infoDate = ''d'', dataStartOffset = 44, numChannels = 3,
                    numSamples = 10, sampleRate = 100, startTime = 0, buffer = Some 1,
                    bufferLength = 104\<rparr>\<rparr>"
proof -
  have "parse_headers (example_platform 16 w t) (replicate 16 1) ''Scale-1: 16384''
   = Inr \<lparr>parsedTime = False,
          parsedScale = [True, False, False, False, False, False, False, False, False,
                         False, False, False, False, False, False, False],
          startTime_local = 0,
          scale_array = [1 / 2, 1, 1, 1, 1, 1, 1, 1, 1, 1, 1, 1, 1, 1, 1, 1],
          printed = [ScaleFound 1 16384 0 (1 / 2), WarningTime, WarningScale 2,
                     WarningScale 3]\<rparr>" for w t
    by (simp add: parse_headers_def commentLines_examples parse_line_scale line_kinds
        example_platform_sel scale_value_def example_atof_values replicate_16
        check_time_def check_scale_def)
  then show ?thesis
    by (simp add: SampleSourceOpen_def load_source_def read_data_def Let_def
        example_platform_sel example_libc_sel example_wav_def c_str_def
        fprintf_stderr_def fclose_def empty_sys_def example_source_def)
qed

subsection \<open>Opening: the format checks\<close>

text \<open>
  Claim C2. When the file opens and \<^verbatim>\<open>WavRead\<close> succeeds, \<^verbatim>\<open>SampleSourceOpen\<close> returns
  \<^verbatim>\<open>EXIT_DATAERR\<close> exactly when the bytes per channel are not 2, or the channel count
  is below 1 or above \<^verbatim>\<open>SAMPLE_SOURCE_CHANNELS_MAX\<close>, or the sample rate is below 1.
\<close>

theorem SampleSourceOpen_format_validation:
  assumes "fopen L filename = Some (fp, bytes)"
    and "WavRead P bytes = (True, w)"
  shows "(\<exists>r. SampleSourceOpen P L m s filename = Inr r \<and> exit r = EXIT_DATAERR)
         \<longleftrightarrow> (bytesPerChannel w \<noteq> 2 \<or> chans w < 1 \<or> int (CHANNELS_MAX P) < chans w
                \<or> freq w < 1)"
  using assms by (auto simp: SampleSourceOpen_def Let_def dest: load_source_exit)

theorem SampleSourceOpen_format_validation_witness:
  "(\<exists>r. SampleSourceOpen (example_platform 4 (example_wav 1 3 ''Scale-1: 16384'') 7)
          (example_libc (Some 2) 0) empty_sys example_source ''f.wav'' = Inr r
        \<and> exit r = EXIT_DATAERR)
   \<and> \<not> (\<exists>r. SampleSourceOpen (example_platform 4 (example_wav 2 3 ''Scale-1: 16384'') 7)
          (example_libc (Some 2) 0) empty_sys example_source ''f.wav'' = Inr r
        \<and> exit r = EXIT_DATAERR)"
  using SampleSourceOpen_format_validation
    [of "example_libc (Some 2) 0" "''f.wav''" 3 "''RIFF''"
      "example_platform 4 (example_wav 1 3 ''Scale-1: 16384'') 7"
      "example_wav 1 3 ''Scale-1: 16384''" empty_sys example_source]
    SampleSourceOpen_format_validation
    [of "example_libc (Some 2) 0" "''f.wav''" 3 "''RIFF''"
      "example_platform 4 (example_wav 2 3 ''Scale-1: 16384'') 7"
      "example_wav 2 3 ''Scale-1: 16384''" empty_sys example_source]
  by (simp add: example_libc_def example_platform_def example_wav_def)

subsection \<open>Opening: a call that fails\<close>

text \<open>
  Claim C8, as the code has it. When \<^verbatim>\<open>SampleSourceOpen\<close> returns another code than
  \<^verbatim>\<open>EXIT_OK\<close>, the file handle it opened is closed, the buffer pointer and the buffer
  length of the source are as they were, and the only allocation the call may leave
  behind is one made by \<^verbatim>\<open>strdup\<close>: the buffer it allocated is freed. The other fields
  of the source may have been overwritten.
\<close>

theorem SampleSourceOpen_failure_cleanup:
  assumes "SampleSourceOpen P L m s filename = Inr r" and "exit r \<noteq> EXIT_OK"
  shows "files (state r) = files m - fst ` set_option (fopen L filename)
         \<and> buffer (source r) = buffer s \<and> bufferLength (source r) = bufferLength s
         \<and> dom (heap (state r)) - dom (heap m) \<subseteq> {a. \<exists>t. strdup L t = Some a}"
proof (cases "fopen L filename")
  case None
  with assms show ?thesis
    by (auto simp: SampleSourceOpen_def Let_def fprintf_stderr_def)
next
  case (Some a)
  obtain fp bytes where a: "a = (fp, bytes)"
    by (cases a)
  obtain ok w where wr: "WavRead P bytes = (ok, w)"
    by (cases "WavRead P bytes")
  show ?thesis
  proof (cases "ok \<and> bytesPerChannel w = 2 \<and> 1 \<le> chans w
                 \<and> chans w \<le> int (CHANNELS_MAX P) \<and> 1 \<le> freq w")
    case True
    with assms(1) Some a wr
    have "\<exists>m' s'. load_source P L m' s' w fp bytes = Inr r
            \<and> files m' = insert fp (files m) \<and> heap m' = heap m
            \<and> buffer s' = buffer s \<and> bufferLength s' = bufferLength s"
      by (simp add: SampleSourceOpen_def Let_def fprintf_stderr_def)
        (rule exI conjI | simp)+
    then obtain m' s' where ld: "load_source P L m' s' w fp bytes = Inr r"
      and m': "files m' = insert fp (files m)" "heap m' = heap m"
      and s': "buffer s' = buffer s" "bufferLength s' = bufferLength s"
      by blast
    from load_source_failure [OF ld assms(2)] m' s' Some a show ?thesis
      by auto
  next
    case False
    with assms(1) Some a wr show ?thesis
      by (auto simp: SampleSourceOpen_def Let_def fprintf_stderr_def fclose_def
          split: if_splits)
  qed
qed

theorem SampleSourceOpen_failure_counterexample:
  "SampleSourceOpen (example_platform 16 (example_wav 2 3 ''Scale-1: 16384'') 7)
     (example_libc None 0) empty_sys example_source ''f.wav''
   = Inr \<lparr>exit = EXIT_SOFTWARE,
          state = \<lparr>heap = [1 \<mapsto> ''Scale-1: 16384''], files = {},
                   stderr = [LoadingHeader ''f.wav'', ScaleFound 1 16384 0 (1 / 2),
                     WarningTime, WarningScale 2, WarningScale 3, Allocating 4,
                     ErrorAllocating 4]\<rparr>,
          source = \<lparr>scale = [1 / 2, 1, 1, 1, 1, 1, 1, 1, 1, 1, 1, 1, 1, 1, 1, 1],
                    infoArtist = ''a'', infoName = ''n'', infoComment = ''Scale-1: 16384'',
                    infoDate = ''d'', dataStartOffset = 44, numChannels = 3,
                    numSamples = 10, sampleRate = 100, startTime = 0, buffer = Some 1,
                    bufferLength = 104\<rparr>\<rparr>
   \<and> heap empty_sys 1 = None
   \<and> scale example_source = [1, 1, 1] \<and> infoComment example_source = []
   \<and> dataStartOffset example_source = 44"
  by (simp add: SampleSourceOpen_example_no_memory) (simp add: empty_sys_def example_source_def)

theorem SampleSourceOpen_failure_cleanup_witness:
  "\<exists>r. SampleSourceOpen (example_platform 16 (example_wav 2 3 ''Scale-1: 16384'') 7)
          (example_libc None 0) empty_sys example_source ''f.wav'' = Inr r
        \<and> exit r = EXIT_SOFTWARE
        \<and> files (state r) = {}
        \<and> buffer (source r) = Some 1 \<and> bufferLength (source r) = 104
        \<and> dom (heap (state r)) \<subseteq> {1}"
proof -
  let ?P = "example_platform 16 (example_wav 2 3 ''Scale-1: 16384'') 7"
  let ?L = "example_libc None 0"
  from SampleSourceOpen_example_no_memory
  obtain r where r: "SampleSourceOpen ?P ?L empty_sys example_source ''f.wav'' = Inr r"
    and e: "exit r = EXIT_SOFTWARE"
    by simp
  then have "exit r \<noteq> EXIT_OK"
    by simp
  from SampleSourceOpen_failure_cleanup [OF r this]
  have "files (state r) = {} \<and> buffer (source r) = Some 1 \<and> bufferLength (source r) = 104
        \<and> dom (heap (state r)) \<subseteq> {1}"
    by (auto simp: empty_sys_def example_source_def example_libc_sel)
  with r e show ?thesis
    by blast
qed

subsection \<open>The headers of the comment text\<close>

text \<open>
  Claim C3. For the comment text of the three lines \<^verbatim>\<open>Time: 2020-01-01T00:00:00Z\<close>,
  \<^verbatim>\<open>Scale-1: 16384\<close> and \<^verbatim>\<open>Scale-2: 8192\<close>, each ended by a newline, the header stage
  returns with the start time \<^verbatim>\<open>TimeParse\<close> gives for the rest of the first line,
  \<open>scale[0] = 0.5\<close>, \<open>scale[1] = 0.25\<close> and \<open>scale[i] = 1\<close> for the
  other channels. It holds on a platform with at least three channels where \<^verbatim>\<open>atof\<close>
  reads the two numbers and the two quotients are converted to \<^verbatim>\<open>float\<close> as they are.
\<close>

theorem parse_headers_time_and_scales:
  assumes "3 \<le> CHANNELS_MAX P"
    and "atof P '' 16384'' = 16384" and "atof P '' 8192'' = 8192"
    and "to_float P (1 / 2) = 1 / 2" and "to_float P (1 / 4) = 1 / 4"
  shows "\<exists>h. parse_headers P (replicate (CHANNELS_MAX P) 1)
               ''Time: 2020-01-01T00:00:00Z\<newline>Scale-1: 16384\<newline>Scale-2: 8192\<newline>''
             = Inr h
           \<and> startTime_local h = TimeParse P '' 2020-01-01T00:00:00Z''
           \<and> scale_array h ! 0 = 1 / 2
           \<and> scale_array h ! 1 = 1 / 4
           \<and> (\<forall>i. 2 \<le> i \<and> i < CHANNELS_MAX P \<longrightarrow> scale_array h ! i = 1)"
proof -
  let ?c = "''Time: 2020-01-01T00:00:00Z\<newline>Scale-1: 16384\<newline>Scale-2: 8192\<newline>''"
  let ?sc = "replicate (CHANNELS_MAX P) (1 :: real)"
  have ls: "commentLines ?c
              = [''Time: 2020-01-01T00:00:00Z'', ''Scale-1: 16384'', ''Scale-2: 8192'']"
    by (rule commentLines_examples)
  have "\<forall>l \<in> set (commentLines ?c). is_scale_line l \<longrightarrow> scale_chan l < CHANNELS_MAX P"
    unfolding ls using assms(1) by (simp add: line_kinds)
  from parse_headers_defined [OF assms(1) this]
  obtain h where h: "parse_headers P ?sc ?c = Inr h"
    by blast
  have len: "length ?sc = CHANNELS_MAX P"
    by simp
  have tl: "time_lines (commentLines ?c) = [''Time: 2020-01-01T00:00:00Z'']"
    unfolding ls by (simp add: time_lines_def line_kinds)
  have s0: "scale_lines 0 (commentLines ?c) = [''Scale-1: 16384'']"
    unfolding ls by (simp add: scale_lines_def line_kinds)
  have s1: "scale_lines 1 (commentLines ?c) = [''Scale-2: 8192'']"
    unfolding ls by (simp add: scale_lines_def line_kinds)
  have s2: "scale_lines i (commentLines ?c) = []" if "2 \<le> i" for i
    unfolding ls using that by (simp add: scale_lines_def line_kinds)
  have "startTime_local h = TimeParse P '' 2020-01-01T00:00:00Z''"
    unfolding parse_headers_Inr(3) [OF h len] tl by simp
  moreover have c: "0 < CHANNELS_MAX P" "1 < CHANNELS_MAX P"
    using assms(1) by simp_all
  have "scale_array h ! 0 = scale_value P ''Scale-1: 16384''"
    using parse_headers_Inr(4) [OF h len c(1)] unfolding s0 by simp
  then have "scale_array h ! 0 = 1 / 2"
    by (simp only: scale_value_examples(1) [OF assms(2) assms(4)])
  moreover have "scale_array h ! 1 = scale_value P ''Scale-2: 8192''"
    using parse_headers_Inr(4) [OF h len c(2)] unfolding s1 by simp
  then have "scale_array h ! 1 = 1 / 4"
    by (simp only: scale_value_examples(2) [OF assms(3) assms(5)])
  moreover have "scale_array h ! i = 1" if "2 \<le> i" "i < CHANNELS_MAX P" for i
    using parse_headers_Inr(4) [OF h len that(2)] that(2) unfolding s2 [OF that(1)]
    by simp
  ultimately show ?thesis
    using h by blast
qed

theorem parse_headers_time_and_scales_witness:
  "\<exists>h. parse_headers (example_platform 16 (example_wav 2 3 []) 1577836800) (replicate 16 1)
               ''Time: 2020-01-01T00:00:00Z\<newline>Scale-1: 16384\<newline>Scale-2: 8192\<newline>''
             = Inr h
           \<and> startTime_local h = 1577836800
           \<and> scale_array h ! 0 = 1 / 2
           \<and> scale_array h ! 1 = 1 / 4
           \<and> scale_array h ! 2 = 1 \<and> scale_array h ! 15 = 1"
proof -
  let ?P = "example_platform 16 (example_wav 2 3 []) 1577836800"
  have "\<exists>h. parse_headers ?P (replicate (CHANNELS_MAX ?P) 1)
               ''Time: 2020-01-01T00:00:00Z\<newline>Scale-1: 16384\<newline>Scale-2: 8192\<newline>''
             = Inr h
           \<and> startTime_local h = TimeParse ?P '' 2020-01-01T00:00:00Z''
           \<and> scale_array h ! 0 = 1 / 2
           \<and> scale_array h ! 1 = 1 / 4
           \<and> (\<forall>i. 2 \<le> i \<and> i < CHANNELS_MAX ?P \<longrightarrow> scale_array h ! i = 1)"
    by (rule parse_headers_time_and_scales)
      (simp_all add: example_platform_sel example_atof_values)
  then obtain h where h: "parse_headers ?P (replicate 16 1)
               ''Time: 2020-01-01T00:00:00Z\<newline>Scale-1: 16384\<newline>Scale-2: 8192\<newline>''
             = Inr h"
    and "startTime_local h = 1577836800" "scale_array h ! 0 = 1 / 2"
    "scale_array h ! 1 = 1 / 4"
    and r: "\<forall>i. 2 \<le> i \<and> i < 16 \<longrightarrow> scale_array h ! i = 1"
    unfolding example_platform_sel by blast
  moreover from r have "scale_array h ! 2 = 1" "scale_array h ! 15 = 1"
    by simp_all
  ultimately show ?thesis
    by blast
qed

lemma parse_headers_Scale_5_kept:
  assumes "5 \<le> CHANNELS_MAX P"
    and "\<forall>l \<in> set (commentLines comment). is_scale_line l \<longrightarrow> scale_chan l < CHANNELS_MAX P"
    and "commentLines comment = pre @ ''Scale-5: 100'' # post"
    and "scale_lines 4 post = []"
    and "atof P '' 100'' = 100" and "to_float P (100 / 32768) = 100 / 32768"
  shows "\<exists>h. parse_headers P (replicate (CHANNELS_MAX P) 1) comment = Inr h
           \<and> scale_array h ! 4 = 100 / 32768
           \<and> filter is_warning (printed h)
               = (if valid_time P (commentLines comment) then [] else [WarningTime])
                 @ map (\<lambda>i. WarningScale (i + 1))
                     (filter (\<lambda>i. \<not> valid_scale P i (commentLines comment)) [0, 1, 2])"
proof -
  let ?sc = "replicate (CHANNELS_MAX P) (1 :: real)"
  have cm: "3 \<le> CHANNELS_MAX P" "4 < CHANNELS_MAX P"
    using assms(1) by simp_all
  from parse_headers_defined [OF cm(1) assms(2)]
  obtain h where h: "parse_headers P ?sc comment = Inr h"
    by blast
  have len: "length ?sc = CHANNELS_MAX P"
    by simp
  have "scale_lines 4 (commentLines comment) = scale_lines 4 pre @ [''Scale-5: 100'']"
    unfolding assms(3) using assms(4) by (simp add: scale_lines_def line_kinds)
  then have "scale_array h ! 4 = scale_value P ''Scale-5: 100''"
    using parse_headers_Inr(4) [OF h len cm(2)] by simp
  then have "scale_array h ! 4 = 100 / 32768"
    by (simp only: scale_value_examples(3) [OF assms(5) assms(6)])
  with h parse_headers_Inr(5) [OF h len] show ?thesis
    by blast
qed
lemma line_kinds_artist:
  "\<not> is_time_line ''Artist: x''" "\<not> is_scale_line ''Artist: x''"
  by (simp_all add: is_time_line_def is_scale_line_def)

text \<open>
  Claim C6. Let the comment text be made of lines, each ended by a newline (the last
  newline may be missing), with the line \<^verbatim>\<open>Scale-5: 100\<close> among the first 32 of them and
  no \<^verbatim>\<open>Scale-5\<close> line after it, on a platform with at least five channels where no
  \<^verbatim>\<open>Scale-\<close> line addresses a channel outside the arrays, where \<^verbatim>\<open>atof\<close> reads the
  number and the quotient is converted to \<^verbatim>\<open>float\<close> as it is. Then the header stage
  returns with \<open>scale[4] = 100 / 32768\<close>, and the warnings it writes are: the one for the
  time when none of the first 32 lines is a \<^verbatim>\<open>Time:\<close> line with a positive time, then
  one for each of the channels 0, 1 and 2 (printed as 1, 2 and 3) that no \<^verbatim>\<open>Scale-\<close>
  line among the first 32 gives a positive value. No other channel has a part in them.
\<close>

theorem parse_headers_Scale_5:
  assumes "5 \<le> CHANNELS_MAX P"
    and "comment = text_of_lines (pre @ ''Scale-5: 100'' # post)
         \<or> comment @ [CHR 0x0A] = text_of_lines (pre @ ''Scale-5: 100'' # post)"
    and "length pre < 32"
    and "\<forall>l \<in> set (pre @ post). l \<noteq> [] \<and> CHR 0x0A \<notin> set l"
    and "\<forall>l \<in> set (pre @ post). is_scale_line l \<longrightarrow> scale_chan l < CHANNELS_MAX P"
    and "scale_lines 4 post = []"
    and "atof P '' 100'' = 100" and "to_float P (100 / 32768) = 100 / 32768"
  shows "\<exists>h. parse_headers P (replicate (CHANNELS_MAX P) 1) comment = Inr h
           \<and> scale_array h ! 4 = 100 / 32768
           \<and> filter is_warning (printed h)
               = (if valid_time P (take 32 (pre @ ''Scale-5: 100'' # post)) then []
                  else [WarningTime])
                 @ map (\<lambda>i. WarningScale (i + 1))
                     (filter (\<lambda>i. \<not> valid_scale P i (take 32 (pre @ ''Scale-5: 100'' # post)))
                        [0, 1, 2])"
proof -
  let ?ls = "pre @ ''Scale-5: 100'' # post"
  let ?post = "take (31 - length pre) post"
  have "\<forall>l \<in> set ?ls. l \<noteq> [] \<and> CHR 0x0A \<notin> set l"
    using assms(4) by auto
  from commentLines_text_of_lines [OF this assms(2)]
  have cl: "commentLines comment = take 32 ?ls" .
  have tk: "take 32 ?ls = pre @ ''Scale-5: 100'' # ?post"
    using assms(3) by (simp add: take_Cons')
  have sub: "set ?post \<subseteq> set post"
    by (rule set_take_subset)
  have def: "\<forall>l \<in> set (commentLines comment). is_scale_line l \<longrightarrow> scale_chan l < CHANNELS_MAX P"
    unfolding cl tk using assms(1,5) sub by (auto simp: line_kinds)
  have "\<forall>l \<in> set post. \<not> (is_scale_line l \<and> scale_chan l = 4)"
    using assms(6) by (simp add: scale_lines_def filter_empty_conv)
  with sub have no: "scale_lines 4 ?post = []"
    by (auto simp: scale_lines_def filter_empty_conv)
  from parse_headers_Scale_5_kept
    [OF assms(1) def cl [unfolded tk] no assms(7) assms(8)]
  show ?thesis
    unfolding cl .
qed

theorem parse_headers_Scale_5_witness:
  "\<exists>h. parse_headers (example_platform 5 (example_wav 2 3 []) 0) (replicate 5 1)
          ''Artist: x\<newline>Scale-5: 100'' = Inr h
        \<and> scale_array h ! 4 = 100 / 32768
        \<and> filter is_warning (printed h)
            = [WarningTime, WarningScale 1, WarningScale 2, WarningScale 3]"
proof -
  let ?P = "example_platform 5 (example_wav 2 3 []) 0"
  let ?c = "''Artist: x\<newline>Scale-5: 100''"
  let ?ls = "[''Artist: x''] @ ''Scale-5: 100'' # []"
  have tk: "take 32 ?ls = [''Artist: x'', ''Scale-5: 100'']"
    by simp
  have cmt: "?c = text_of_lines ?ls \<or> ?c @ [CHR 0x0A] = text_of_lines ?ls"
    by (simp add: text_of_lines_def)
  have vt: "\<not> valid_time ?P (take 32 ?ls)"
    unfolding tk by (simp add: valid_time_def line_kinds line_kinds_artist)
  have vs: "\<not> valid_scale ?P i (take 32 ?ls)" if "i < 3" for i
    unfolding tk using that by (auto simp: valid_scale_def line_kinds line_kinds_artist)
  have f: "filter (\<lambda>i. \<not> valid_scale ?P i (take 32 ?ls)) [0, 1, 2] = [0, 1, 2]"
    using vs by simp
  have m: "map (\<lambda>i. WarningScale (i + 1)) [0, 1, 2]
             = [WarningScale 1, WarningScale 2, WarningScale 3]"
    by simp
  have "\<exists>h. parse_headers ?P (replicate (CHANNELS_MAX ?P) 1) ?c = Inr h
           \<and> scale_array h ! 4 = 100 / 32768
           \<and> filter is_warning (printed h)
               = (if valid_time ?P (take 32 ?ls) then [] else [WarningTime])
                 @ map (\<lambda>i. WarningScale (i + 1))
                     (filter (\<lambda>i. \<not> valid_scale ?P i (take 32 ?ls)) [0, 1, 2])"
    by (rule parse_headers_Scale_5 [OF _ cmt])
      (simp_all add: example_platform_sel example_atof_values line_kinds_artist
        scale_lines_def)
  then obtain h
    where a: "parse_headers ?P (replicate (CHANNELS_MAX ?P) 1) ?c = Inr h"
      and b: "scale_array h ! 4 = 100 / 32768"
      and c: "filter is_warning (printed h)
               = (if valid_time ?P (take 32 ?ls) then [] else [WarningTime])
                 @ map (\<lambda>i. WarningScale (i + 1))
                     (filter (\<lambda>i. \<not> valid_scale ?P i (take 32 ?ls)) [0, 1, 2])"
    by blast
  have "filter is_warning (printed h)
          = [WarningTime, WarningScale 1, WarningScale 2, WarningScale 3]"
    unfolding c f m using vt by simp
  with a b show ?thesis
    unfolding example_platform_sel by blast
qed

subsection \<open>Headers with no positive value\<close>

text \<open>
  Claim C4, on the code. When \<^verbatim>\<open>SampleSourceOpen\<close> returns \<^verbatim>\<open>EXIT_OK\<close> and no \<^verbatim>\<open>Time:\<close>
  line of the comment has a positive time, the warning for the time is written, and
  the start time of the source is the time of the last \<^verbatim>\<open>Time:\<close> line, or 0 when
  there is none. So it is 0 when that line parses to 0, and negative, not 0, when it
  parses to a negative time: the loop stores the time before it tests it.
\<close>

theorem SampleSourceOpen_no_valid_time:
  assumes "SampleSourceOpen P L m s filename = Inr r" and "exit r = EXIT_OK"
    and "fopen L filename = Some (fp, bytes)" and "WavRead P bytes = (ok, w)"
    and "\<not> valid_time P (commentLines (c_str (WavInfo.infoComment w)))"
  shows "WarningTime \<in> set (stderr (state r))
         \<and> startTime (source r)
             = (if time_lines (commentLines (c_str (WavInfo.infoComment w))) = [] then 0
                else TimeParse P (drop 5
                       (last (time_lines (commentLines (c_str (WavInfo.infoComment w)))))))"
proof -
  from SampleSourceOpen_ok [OF assms(1-4)] obtain h
    where h: "parse_headers P (replicate (CHANNELS_MAX P) 1) (c_str (WavInfo.infoComment w))
                = Inr h"
      and st: "startTime (source r) = startTime_local h"
      and err: "stderr (state r)
               = stderr m @ [LoadingHeader filename] @ printed h
                 @ [Allocating (int (length bytes))]"
    by blast
  have len: "length (replicate (CHANNELS_MAX P) (1 :: real)) = CHANNELS_MAX P"
    by simp
  have "WarningTime \<in> set (filter is_warning (printed h))"
    unfolding parse_headers_Inr(5) [OF h len] using assms(5) by simp
  then have "WarningTime \<in> set (stderr (state r))"
    unfolding err by simp
  with st parse_headers_Inr(3) [OF h len] show ?thesis
    by simp
qed

theorem SampleSourceOpen_no_valid_time_witness:
  "\<exists>r. SampleSourceOpen
          (example_platform 16 (example_wav 2 3 ''Time: 1969-12-31 23:59:59'') (- 1))
          (example_libc (Some 2) 0) empty_sys example_source ''f.wav'' = Inr r
        \<and> exit r = EXIT_OK
        \<and> WarningTime \<in> set (stderr (state r))
        \<and> startTime (source r) = - 1"
proof -
  let ?w = "example_wav 2 3 ''Time: 1969-12-31 23:59:59''"
  let ?P = "example_platform 16 ?w (- 1)"
  let ?L = "example_libc (Some 2) 0"
  have c: "commentLines (c_str (WavInfo.infoComment ?w)) = [''Time: 1969-12-31 23:59:59'']"
    by (simp add: example_wav_def c_str_examples commentLines_examples)
  have "\<exists>r. SampleSourceOpen ?P ?L empty_sys example_source ''f.wav'' = Inr r
          \<and> exit r = EXIT_OK"
    by (rule example_open_ok) (simp_all add: c_str_examples commentLines_examples line_kinds)
  then obtain r where r: "SampleSourceOpen ?P ?L empty_sys example_source ''f.wav'' = Inr r"
    and ok: "exit r = EXIT_OK"
    by blast
  have nv: "\<not> valid_time ?P (commentLines (c_str (WavInfo.infoComment ?w)))"
    unfolding c by (simp add: valid_time_def example_platform_sel)
  have "WarningTime \<in> set (stderr (state r)) \<and> startTime (source r) = - 1"
    using SampleSourceOpen_no_valid_time [OF r ok _ _ nv, of 3 "''RIFF''" True]
    unfolding c by (simp add: example_platform_sel example_libc_sel time_lines_def line_kinds)
  with r ok show ?thesis
    by blast
qed

text \<open>
  Claim C5, on the code. When \<^verbatim>\<open>SampleSourceOpen\<close> returns \<^verbatim>\<open>EXIT_OK\<close> and, for a channel
  \<open>i\<close> of 0, 1 and 2, no \<^verbatim>\<open>Scale-\<close> line of that channel has a positive value, the
  warning for the channel is written (with the number \<open>i + 1\<close>), and \<open>scale[i]\<close> is the
  value of the last \<^verbatim>\<open>Scale-\<close> line of the channel, or the default 1 when there is
  none. So a line whose value is zero, negative or not a number leaves that value in
  \<open>scale[i]\<close>, not the default: the loop stores the value before it tests it.
\<close>

theorem SampleSourceOpen_no_valid_scale:
  assumes "SampleSourceOpen P L m s filename = Inr r" and "exit r = EXIT_OK"
    and "fopen L filename = Some (fp, bytes)" and "WavRead P bytes = (ok, w)"
    and "i < 3"
    and "\<not> valid_scale P i (commentLines (c_str (WavInfo.infoComment w)))"
  shows "WarningScale (i + 1) \<in> set (stderr (state r))
         \<and> scale (source r) ! i
             = (if scale_lines i (commentLines (c_str (WavInfo.infoComment w))) = [] then 1
                else scale_value P
                       (last (scale_lines i (commentLines (c_str (WavInfo.infoComment w))))))"
proof -
  from SampleSourceOpen_ok [OF assms(1-4)] obtain h
    where h: "parse_headers P (replicate (CHANNELS_MAX P) 1) (c_str (WavInfo.infoComment w))
                = Inr h"
      and sc: "scale (source r) = scale_array h"
      and err: "stderr (state r)
               = stderr m @ [LoadingHeader filename] @ printed h
                 @ [Allocating (int (length bytes))]"
    by blast
  have len: "length (replicate (CHANNELS_MAX P) (1 :: real)) = CHANNELS_MAX P"
    by simp
  have i: "i < CHANNELS_MAX P"
    using parse_headers_Inr(1) [OF h len] assms(5) by simp
  let ?Q = "\<lambda>i. \<not> valid_scale P i (commentLines (c_str (WavInfo.infoComment w)))"
  from assms(5) have "i \<in> set [0, 1, 2]"
    by auto
  with assms(6) have "i \<in> set (filter ?Q [0, 1, 2])"
    unfolding set_filter by blast
  then have "WarningScale (i + 1) \<in> set (map (\<lambda>i. WarningScale (i + 1)) (filter ?Q [0, 1, 2]))"
    unfolding set_map by (rule image_eqI [where x = i, OF refl])
  then have "WarningScale (i + 1) \<in> set (filter is_warning (printed h))"
    unfolding parse_headers_Inr(5) [OF h len] set_append by (rule UnI2)
  then have "WarningScale (i + 1) \<in> set (printed h)"
    by simp
  then have "WarningScale (i + 1) \<in> set (stderr (state r))"
    unfolding err by simp
  moreover have "scale (source r) ! i
             = (if scale_lines i (commentLines (c_str (WavInfo.infoComment w))) = [] then 1
                else scale_value P
                       (last (scale_lines i (commentLines (c_str (WavInfo.infoComment w))))))"
    unfolding sc using parse_headers_Inr(4) [OF h len i] i by simp
  ultimately show ?thesis
    by blast
qed

theorem SampleSourceOpen_no_valid_scale_witness:
  "\<exists>r. SampleSourceOpen (example_platform 16 (example_wav 2 3 ''Scale-1: 0'') 0)
          (example_libc (Some 2) 0) empty_sys example_source ''f.wav'' = Inr r
        \<and> exit r = EXIT_OK
        \<and> WarningScale 1 \<in> set (stderr (state r))
        \<and> scale (source r) ! 0 = 0"
proof -
  let ?w = "example_wav 2 3 ''Scale-1: 0''"
  let ?P = "example_platform 16 ?w 0"
  let ?L = "example_libc (Some 2) 0"
  have c: "commentLines (c_str (WavInfo.infoComment ?w)) = [''Scale-1: 0'']"
    by (simp add: example_wav_def c_str_examples commentLines_examples)
  have v: "scale_value ?P ''Scale-1: 0'' = 0"
    by (rule scale_value_examples) (simp_all add: example_platform_sel example_atof_values)
  have "\<exists>r. SampleSourceOpen ?P ?L empty_sys example_source ''f.wav'' = Inr r
          \<and> exit r = EXIT_OK"
    by (rule example_open_ok) (simp_all add: c_str_examples commentLines_examples line_kinds)
  then obtain r where r: "SampleSourceOpen ?P ?L empty_sys example_source ''f.wav'' = Inr r"
    and ok: "exit r = EXIT_OK"
    by blast
  have nv: "\<not> valid_scale ?P 0 (commentLines (c_str (WavInfo.infoComment ?w)))"
    unfolding c by (simp add: valid_scale_def v)
  have "WarningScale (0 + 1) \<in> set (stderr (state r)) \<and> scale (source r) ! 0 = 0"
    using SampleSourceOpen_no_valid_scale [OF r ok _ _ _ nv, of 3 "''RIFF''" True]
    unfolding c by (simp add: example_platform_sel example_libc_sel scale_lines_def line_kinds v)
  with r ok show ?thesis
    by simp
qed

subsection \<open>The index of a store\<close>

text \<open>
  Claim C10. A \<^verbatim>\<open>Scale-\<close> line stores into \<^verbatim>\<open>sampleSource->scale\<close> and \<^verbatim>\<open>parsedScale\<close> at
  the index of its digit minus 1, an index from 0 to 8, and outside the arrays when
  that index is not below \<^verbatim>\<open>SAMPLE_SOURCE_CHANNELS_MAX\<close>. No comment text makes the header
  stage store outside the arrays exactly when \<^verbatim>\<open>SAMPLE_SOURCE_CHANNELS_MAX\<close> is at least 9.
  The channel count of the file has no part in it: after a successful
  \<^verbatim>\<open>SampleSourceOpen\<close>, \<open>scale[c]\<close> holds the value of the last \<^verbatim>\<open>Scale-\<close> line of
  channel \<open>c\<close>, whatever \<open>numChannels\<close> is.
\<close>

theorem scale_write_index:
  "(is_scale_line line \<longrightarrow>
      scale_chan line \<le> 8
      \<and> of_char (c_at line 6) = scale_chan line + of_char (CHR ''1'')
      \<and> parse_line P h line
          = (if CHANNELS_MAX P \<le> scale_chan line then Inl (OutOfBoundsWrite (scale_chan line))
             else Inr (h\<lparr>scale_array := (scale_array h)[scale_chan line := scale_value P line],
                        printed := printed h
                          @ [ScaleFound (scale_chan line + 1) (atof P (drop 8 line))
                               (scale_chan line) (scale_value P line)],
                        parsedScale := (if 0 < scale_value P line
                                        then (parsedScale h)[scale_chan line := True]
                                        else parsedScale h)\<rparr>)))
   \<and> ((\<forall>sc comment i. parse_headers P sc comment \<noteq> Inl (OutOfBoundsWrite i))
        \<longleftrightarrow> 9 \<le> CHANNELS_MAX P)
   \<and> (SampleSourceOpen P L m s filename = Inr r \<and> exit r = EXIT_OK
        \<and> fopen L filename = Some (fp, bytes) \<and> WavRead P bytes = (ok, w)
        \<and> scale_lines c (commentLines (c_str (WavInfo.infoComment w))) \<noteq> [] \<longrightarrow>
      numChannels (source r) = chans w
      \<and> scale (source r) ! c
          = scale_value P (last (scale_lines c (commentLines (c_str (WavInfo.infoComment w))))))"
proof (intro conjI impI)
  assume "is_scale_line line"
  then show "scale_chan line \<le> 8"
    by (rule scale_chan_le_8)
next
  assume "is_scale_line line"
  then show "of_char (c_at line 6) = scale_chan line + of_char (CHR ''1'')"
    by (rule scale_chan_digit)
next
  assume "is_scale_line line"
  then show "parse_line P h line
          = (if CHANNELS_MAX P \<le> scale_chan line then Inl (OutOfBoundsWrite (scale_chan line))
             else Inr (h\<lparr>scale_array := (scale_array h)[scale_chan line := scale_value P line],
                        printed := printed h
                          @ [ScaleFound (scale_chan line + 1) (atof P (drop 8 line))
                               (scale_chan line) (scale_value P line)],
                        parsedScale := (if 0 < scale_value P line
                                        then (parsedScale h)[scale_chan line := True]
                                        else parsedScale h)\<rparr>))"
    by (simp add: parse_line_scale parse_line_scale_out not_le)
next
  show "(\<forall>sc comment i. parse_headers P sc comment \<noteq> Inl (OutOfBoundsWrite i))
        \<longleftrightarrow> 9 \<le> CHANNELS_MAX P"
  proof
    assume a: "\<forall>sc comment i. parse_headers P sc comment \<noteq> Inl (OutOfBoundsWrite i)"
    show "9 \<le> CHANNELS_MAX P"
    proof (rule ccontr)
      assume "\<not> 9 \<le> CHANNELS_MAX P"
      then have "CHANNELS_MAX P < 9" by simp
      from parse_headers_Scale_9 [OF this] a show False
        by blast
    qed
  next
    assume nine: "9 \<le> CHANNELS_MAX P"
    show "\<forall>sc comment i. parse_headers P sc comment \<noteq> Inl (OutOfBoundsWrite i)"
    proof (intro allI notI)
      fix sc comment i
      assume "parse_headers P sc comment = Inl (OutOfBoundsWrite i)"
      from parse_headers_Inl [OF this]
      obtain l where "is_scale_line l" "CHANNELS_MAX P \<le> scale_chan l"
        by auto
      with scale_chan_le_8 [of l] nine show False
        by simp
    qed
  qed
next
  assume a: "SampleSourceOpen P L m s filename = Inr r \<and> exit r = EXIT_OK
        \<and> fopen L filename = Some (fp, bytes) \<and> WavRead P bytes = (ok, w)
        \<and> scale_lines c (commentLines (c_str (WavInfo.infoComment w))) \<noteq> []"
  then have o: "SampleSourceOpen P L m s filename = Inr r" "exit r = EXIT_OK"
    "fopen L filename = Some (fp, bytes)" "WavRead P bytes = (ok, w)"
    and ne: "scale_lines c (commentLines (c_str (WavInfo.infoComment w))) \<noteq> []"
    by simp_all
  from SampleSourceOpen_ok [OF o] obtain h
    where h: "parse_headers P (replicate (CHANNELS_MAX P) 1) (c_str (WavInfo.infoComment w))
                = Inr h"
      and sc: "scale (source r) = scale_array h"
      and nc: "numChannels (source r) = chans w"
    by blast
  have len: "length (replicate (CHANNELS_MAX P) (1 :: real)) = CHANNELS_MAX P"
    by simp
  from ne obtain l where "l \<in> set (scale_lines c (commentLines (c_str (WavInfo.infoComment w))))"
    by (cases "scale_lines c (commentLines (c_str (WavInfo.infoComment w)))") auto
  then have "l \<in> set (commentLines (c_str (WavInfo.infoComment w)))"
    and "is_scale_line l" and "scale_chan l = c"
    by (simp_all add: scale_lines_def)
  with parse_headers_Inr(6) [OF h len] have c: "c < CHANNELS_MAX P"
    by blast
  show "numChannels (source r) = chans w"
    by (rule nc)
  show "scale (source r) ! c
          = scale_value P (last (scale_lines c (commentLines (c_str (WavInfo.infoComment w)))))"
    unfolding sc using parse_headers_Inr(4) [OF h len c] ne by simp
qed

theorem scale_write_index_witness:
  "scale_chan ''Scale-5: 100'' = 4
   \<and> (\<forall>sc comment i.
         parse_headers (example_platform 16 (example_wav 2 1 ''Scale-5: 100'') 0) sc comment
           \<noteq> Inl (OutOfBoundsWrite i))
   \<and> (\<exists>sc comment i.
         parse_headers (example_platform 8 (example_wav 2 1 ''Scale-5: 100'') 0) sc comment
           = Inl (OutOfBoundsWrite i))
   \<and> (\<exists>r. SampleSourceOpen (example_platform 16 (example_wav 2 1 ''Scale-5: 100'') 0)
            (example_libc (Some 2) 0) empty_sys example_source ''f.wav'' = Inr r
          \<and> exit r = EXIT_OK
          \<and> numChannels (source r) = 1
          \<and> scale (source r) ! 4 = 100 / 32768)"
proof -
  let ?w = "example_wav 2 1 ''Scale-5: 100''"
  let ?P = "example_platform 16 ?w 0"
  let ?Q = "example_platform 8 ?w 0"
  let ?L = "example_libc (Some 2) 0"
  have c: "commentLines (c_str (WavInfo.infoComment ?w)) = [''Scale-5: 100'']"
    by (simp add: example_wav_def c_str_examples commentLines_examples)
  have sl: "scale_lines 4 (commentLines (c_str (WavInfo.infoComment ?w))) = [''Scale-5: 100'']"
    unfolding c by (simp add: scale_lines_def line_kinds)
  have v: "scale_value ?P ''Scale-5: 100'' = 100 / 32768"
    by (rule scale_value_examples) (simp_all add: example_platform_sel example_atof_values)
  have "\<exists>r. SampleSourceOpen ?P ?L empty_sys example_source ''f.wav'' = Inr r
          \<and> exit r = EXIT_OK"
    by (rule example_open_ok) (simp_all add: c_str_examples commentLines_examples line_kinds)
  then obtain r where r: "SampleSourceOpen ?P ?L empty_sys example_source ''f.wav'' = Inr r"
    and ok: "exit r = EXIT_OK"
    by blast
  note t = scale_write_index [of "''Scale-5: 100''" ?P _ ?L empty_sys example_source "''f.wav''"
      r 3 "''RIFF''" True ?w 4]
  note u = scale_write_index [of "''Scale-5: 100''" ?Q]
  have "scale_chan ''Scale-5: 100'' = 4"
    by (simp add: line_kinds)
  moreover from t [THEN conjunct2, THEN conjunct1]
  have "\<forall>sc comment i. parse_headers ?P sc comment \<noteq> Inl (OutOfBoundsWrite i)"
    by (simp add: example_platform_sel)
  moreover from u [THEN conjunct2, THEN conjunct1]
  have "\<exists>sc comment i. parse_headers ?Q sc comment = Inl (OutOfBoundsWrite i)"
    by (simp add: example_platform_sel)
  moreover have "numChannels (source r) = chans ?w
      \<and> scale (source r) ! 4
          = scale_value ?P (last (scale_lines 4 (commentLines (c_str (WavInfo.infoComment ?w)))))"
    by (rule t [THEN conjunct2, THEN conjunct2, THEN mp])
      (simp add: r ok example_libc_sel example_platform_sel sl)
  then have "numChannels (source r) = chans ?w"
    and "scale (source r) ! 4 = scale_value ?P ''Scale-5: 100''"
    unfolding sl by simp_all
  then have "numChannels (source r) = 1 \<and> scale (source r) ! 4 = 100 / 32768"
    unfolding v by (simp add: example_wav_def)
  ultimately show ?thesis
    using r ok by blast
qed

end
